theory Spec2Isabelle
  imports Complex_Main
begin

section \<open>FB-PIC GPU utilities (\<^verbatim>\<open>fbpic/cuda_utils.py\<close>)\<close>

text \<open>
  The module holds five CUDA kernels (three copies between a 2-D grid and its flattened
  form, two changes of basis between the \<open>(r, t)\<close> and the \<open>(p, m)\<close> components) and two
  pure functions that size a kernel launch.

  Conventions of the embedding:
  \<^item> Array elements are \<^verbatim>\<open>complex128\<close>; they are modelled by the exact complex numbers
    \<^typ>\<open>complex\<close>, so every statement below is one of exact complex arithmetic.
  \<^item> A 2-D device array is its declared shape together with a map from index pairs to
    values. The memory order (C or Fortran) of an array is deliberately absent: the
    kernels address elements by \<^verbatim>\<open>[iz, ir]\<close> only.
  \<^item> A 1-D device array is a list; its shape is its length.
  \<^item> A kernel body is a function of the thread position returned by \<^verbatim>\<open>cuda.grid(2)\<close>.
    Device code performs no bounds check: an access outside the declared shape is
    undefined behaviour, which the model makes the error value \<open>OutOfBounds\<close>.
  \<^item> A kernel launch runs the body once for every thread of the launch grid. The order
    of the threads is not fixed by CUDA; a launch is therefore parametrised by the
    list of thread positions in the order in which they run.
  \<^item> The module is Python 2 code (no \<^verbatim>\<open>from __future__ import division\<close>; the test
    suite calls \<^verbatim>\<open>execfile\<close>): \<^verbatim>\<open>x/TPB\<close> on integers is floor division. The reading
    of the same line under Python 3 (true division, then truncation by \<^verbatim>\<open>int\<close>) is
    given next to it.
\<close>

subsection \<open>Errors\<close>

datatype error = ZeroDivisionError | OutOfBounds

definition bind_err :: "error + 'a \<Rightarrow> ('a \<Rightarrow> error + 'b) \<Rightarrow> error + 'b" where
  "bind_err r f = (case r of Inl e \<Rightarrow> Inl e | Inr v \<Rightarrow> f v)"

subsection \<open>Device arrays\<close>

record array2d =
  shape0 :: nat
  shape1 :: nat
  cell :: "nat \<times> nat \<Rightarrow> complex"

type_synonym array1d = "complex list"

definition in_shape :: "array2d \<Rightarrow> nat \<times> nat \<Rightarrow> bool" where
  "in_shape a idx \<longleftrightarrow> fst idx < shape0 a \<and> snd idx < shape1 a"

definition getitem2 :: "array2d \<Rightarrow> nat \<times> nat \<Rightarrow> error + complex" where
  "getitem2 a idx = (if in_shape a idx then Inr (cell a idx) else Inl OutOfBounds)"

definition setitem2 :: "array2d \<Rightarrow> nat \<times> nat \<Rightarrow> complex \<Rightarrow> error + array2d" where
  "setitem2 a idx v =
     (if in_shape a idx then Inr (a\<lparr>cell := (cell a)(idx := v)\<rparr>) else Inl OutOfBounds)"

definition getitem1 :: "array1d \<Rightarrow> nat \<Rightarrow> error + complex" where
  "getitem1 a i = (if i < length a then Inr (a ! i) else Inl OutOfBounds)"

definition setitem1 :: "array1d \<Rightarrow> nat \<Rightarrow> complex \<Rightarrow> error + array1d" where
  "setitem1 a i v = (if i < length a then Inr (a[i := v]) else Inl OutOfBounds)"

text \<open>
  The basis-change kernels may be called with output buffers that are the same objects
  as the input buffers. Their arguments are therefore references into a store of 2-D
  arrays, and two arguments alias exactly when the references are equal.
\<close>

type_synonym ref = nat
type_synonym heap = "ref \<Rightarrow> array2d"

definition load :: "heap \<Rightarrow> ref \<Rightarrow> nat \<times> nat \<Rightarrow> error + complex" where
  "load h b idx = getitem2 (h b) idx"

definition store :: "heap \<Rightarrow> ref \<Rightarrow> nat \<times> nat \<Rightarrow> complex \<Rightarrow> error + heap" where
  "store h b idx v = bind_err (setitem2 (h b) idx v) (\<lambda>a. Inr (h(b := a)))"

subsection \<open>Kernel launch\<close>

fun cuda_launch :: "('t \<Rightarrow> 's \<Rightarrow> error + 's) \<Rightarrow> 't list \<Rightarrow> 's \<Rightarrow> error + 's" where
  "cuda_launch body [] s = Inr s"
| "cuda_launch body (tid # tids) s = bind_err (body tid s) (cuda_launch body tids)"

text \<open>
  A schedule covers the grid \<open>Nz \<times> Nr\<close> when every position of the grid is the position
  of one of its threads; the launch plans below make grids that cover more.
\<close>

definition covers :: "(nat \<times> nat) list \<Rightarrow> nat \<Rightarrow> nat \<Rightarrow> bool" where
  "covers tids Nz Nr \<longleftrightarrow> (\<forall>iz < Nz. \<forall>ir < Nr. (iz, ir) \<in> set tids)"

text \<open>
  A launch \<^verbatim>\<open>kernel[(BPGx, BPGy), (TPBx, TPBy)](...)\<close> starts one thread for every block
  index \<open>(bx, by)\<close> and thread index \<open>(tx, ty)\<close>; \<^verbatim>\<open>cuda.grid(2)\<close> gives that thread the
  position \<open>(tx + bx * TPBx, ty + by * TPBy)\<close>. These positions are the pairs below
  \<open>BPGx * TPBx\<close> and \<open>BPGy * TPBy\<close>, each taken once; \<open>grid_threads\<close> lists them.
\<close>

definition grid_threads :: "nat \<times> nat \<Rightarrow> nat \<times> nat \<Rightarrow> (nat \<times> nat) list" where
  "grid_threads bpg tpb =
     List.product [0 ..< fst bpg * fst tpb] [0 ..< snd bpg * snd tpb]"

subsection \<open>Copying functions\<close>

definition cuda_copy_2d_to_2d :: "nat \<times> nat \<Rightarrow> array2d \<Rightarrow> array2d \<Rightarrow> error + array2d" where
  "cuda_copy_2d_to_2d tid array_in array_out =
     (case tid of (iz, ir) \<Rightarrow>
        if iz < shape0 array_in \<and> ir < shape1 array_in then
          bind_err (getitem2 array_in (iz, ir)) (\<lambda>v. setitem2 array_out (iz, ir) v)
        else Inr array_out)"

definition cuda_copy_2d_to_1d :: "nat \<times> nat \<Rightarrow> array2d \<Rightarrow> array1d \<Rightarrow> error + array1d" where
  "cuda_copy_2d_to_1d tid array_2d array_1d =
     (case tid of (iz, ir) \<Rightarrow>
        if iz < shape0 array_2d \<and> ir < shape1 array_2d then
          let i = iz + shape0 array_2d * ir in
          bind_err (getitem2 array_2d (iz, ir)) (\<lambda>v. setitem1 array_1d i v)
        else Inr array_1d)"

definition cuda_copy_1d_to_2d :: "nat \<times> nat \<Rightarrow> array1d \<Rightarrow> array2d \<Rightarrow> error + array2d" where
  "cuda_copy_1d_to_2d tid array_1d array_2d =
     (case tid of (iz, ir) \<Rightarrow>
        if iz < shape0 array_2d \<and> ir < shape1 array_2d then
          let i = iz + shape0 array_2d * ir in
          bind_err (getitem1 array_1d i) (\<lambda>v. setitem2 array_2d (iz, ir) v)
        else Inr array_2d)"

subsection \<open>Functions that combine components in spectral space\<close>

definition cuda_rt_to_pm :: "nat \<times> nat \<Rightarrow> ref \<Rightarrow> ref \<Rightarrow> ref \<Rightarrow> ref \<Rightarrow> heap \<Rightarrow> error + heap" where
  "cuda_rt_to_pm tid buffer_r buffer_t buffer_p buffer_m h =
     (case tid of (iz, ir) \<Rightarrow>
        if iz < shape0 (h buffer_r) \<and> ir < shape1 (h buffer_r) then
          bind_err (load h buffer_r (iz, ir)) (\<lambda>value_r.
          bind_err (load h buffer_t (iz, ir)) (\<lambda>value_t.
          bind_err (store h buffer_p (iz, ir) (0.5 * (value_r - \<i> * value_t))) (\<lambda>h1.
          store h1 buffer_m (iz, ir) (0.5 * (value_r + \<i> * value_t)))))
        else Inr h)"

definition cuda_pm_to_rt :: "nat \<times> nat \<Rightarrow> ref \<Rightarrow> ref \<Rightarrow> ref \<Rightarrow> ref \<Rightarrow> heap \<Rightarrow> error + heap" where
  "cuda_pm_to_rt tid buffer_p buffer_m buffer_r buffer_t h =
     (case tid of (iz, ir) \<Rightarrow>
        if iz < shape0 (h buffer_p) \<and> ir < shape1 (h buffer_p) then
          bind_err (load h buffer_p (iz, ir)) (\<lambda>value_p.
          bind_err (load h buffer_m (iz, ir)) (\<lambda>value_m.
          bind_err (store h buffer_r (iz, ir) (value_p + value_m)) (\<lambda>h1.
          store h1 buffer_t (iz, ir) (\<i> * (value_p - value_m)))))
        else Inr h)"

subsection \<open>CUDA grid utilities\<close>

definition cuda_tpb_bpg_1d :: "int \<Rightarrow> int \<Rightarrow> error + int \<times> int" where
  "cuda_tpb_bpg_1d x TPB =
     (if TPB = 0 then Inl ZeroDivisionError
      else let BPG = x div TPB + 1 in Inr (BPG, TPB))"

definition cuda_tpb_bpg_2d :: "int \<Rightarrow> int \<Rightarrow> int \<Rightarrow> int \<Rightarrow> error + (int \<times> int) \<times> (int \<times> int)" where
  "cuda_tpb_bpg_2d x y TPBx TPBy =
     (if TPBx = 0 then Inl ZeroDivisionError
      else let BPGx = x div TPBx + 1 in
        if TPBy = 0 then Inl ZeroDivisionError
        else let BPGy = y div TPBy + 1 in
          Inr ((BPGx, BPGy), (TPBx, TPBy)))"

text \<open>
  Under Python 3 the quotient \<^verbatim>\<open>x/TPB\<close> is a true division and \<^verbatim>\<open>int\<close> truncates
  towards zero; over the rationals (rounding of the float quotient aside) that is:
\<close>

definition py_int :: "rat \<Rightarrow> int" where
  "py_int q = (if 0 \<le> q then \<lfloor>q\<rfloor> else \<lceil>q\<rceil>)"

definition cuda_tpb_bpg_1d_truediv :: "int \<Rightarrow> int \<Rightarrow> error + int \<times> int" where
  "cuda_tpb_bpg_1d_truediv x TPB =
     (if TPB = 0 then Inl ZeroDivisionError
      else let BPG = py_int (of_int x / of_int TPB + 1) in Inr (BPG, TPB))"

subsection \<open>The common form of the two basis-change kernels\<close>

text \<open>
  Both kernels read one element of each of their first two buffers into locals and
  then write one element of each of their last two buffers; they differ in the two
  expressions written. \<open>combine_kernel\<close> is that common form, used in the proofs only
  (\<open>cuda_rt_to_pm_combine\<close> and \<open>cuda_pm_to_rt_combine\<close> relate it to the kernels).
\<close>

definition set_cell :: "array2d \<Rightarrow> nat \<times> nat \<Rightarrow> complex \<Rightarrow> array2d" where
  "set_cell a idx v = a\<lparr>cell := (cell a)(idx := v)\<rparr>"

definition combine_kernel ::
  "(complex \<Rightarrow> complex \<Rightarrow> complex) \<Rightarrow> (complex \<Rightarrow> complex \<Rightarrow> complex) \<Rightarrow>
   nat \<times> nat \<Rightarrow> ref \<Rightarrow> ref \<Rightarrow> ref \<Rightarrow> ref \<Rightarrow> heap \<Rightarrow> error + heap" where
  "combine_kernel f g tid a b c d h =
     (if in_shape (h a) tid then
        bind_err (load h a tid) (\<lambda>x.
        bind_err (load h b tid) (\<lambda>y.
        bind_err (store h c tid (f x y)) (\<lambda>h1.
        store h1 d tid (g x y))))
      else Inr h)"

text \<open>
  \<open>fits h a x\<close>: the array \<open>x\<close> is declared at least as large as \<open>a\<close> in both dimensions, so
  that every position the guard on \<open>a\<close> lets through is a position of \<open>x\<close>.
\<close>

definition fits :: "heap \<Rightarrow> ref \<Rightarrow> ref \<Rightarrow> bool" where
  "fits h a x \<longleftrightarrow> shape0 (h a) \<le> shape0 (h x) \<and> shape1 (h a) \<le> shape1 (h x)"

text \<open>
  \<open>heap_frame a c d h h'\<close>: the store \<open>h'\<close> differs from \<open>h\<close> at most in the buffers \<open>c\<close> and \<open>d\<close>,
  no array has changed its shape, and no array has changed at a position outside the
  shape of \<open>a\<close>, the array on which the kernel guards.
\<close>

definition heap_frame :: "ref \<Rightarrow> ref \<Rightarrow> ref \<Rightarrow> heap \<Rightarrow> heap \<Rightarrow> bool" where
  "heap_frame a c d h h' \<longleftrightarrow>
     (\<forall>x. x \<noteq> c \<and> x \<noteq> d \<longrightarrow> h' x = h x) \<and>
     (\<forall>x. shape0 (h' x) = shape0 (h x) \<and> shape1 (h' x) = shape1 (h x)) \<and>
     (\<forall>x idx. \<not> in_shape (h a) idx \<longrightarrow> cell (h' x) idx = cell (h x) idx)"

subsection \<open>Arrays written out, for the examples\<close>

definition array_of_rows :: "nat \<Rightarrow> nat \<Rightarrow> complex list list \<Rightarrow> array2d" where
  "array_of_rows Nz Nr rows = \<lparr>shape0 = Nz, shape1 = Nr, cell = (\<lambda>(iz, ir). rows ! iz ! ir)\<rparr>"

definition rows_of :: "array2d \<Rightarrow> complex list list" where
  "rows_of a = map (\<lambda>iz. map (\<lambda>ir. cell a (iz, ir)) [0 ..< shape1 a]) [0 ..< shape0 a]"

text \<open>
  The store of the basis-change example: buffer 0 holds \<open>r\<close>, buffer 1 holds \<open>t\<close>, and every
  other buffer is a \<open>2 \<times> 2\<close> array filled with the value 9.
\<close>

definition example_heap :: heap where
  "example_heap =
     (\<lambda>_. array_of_rows 2 2 [[9, 9], [9, 9]])
       (0 := array_of_rows 2 2 [[1, 2], [3, 4]], 1 := array_of_rows 2 2 [[0, 0], [0, 0]])"

text \<open>The grid of the layout example, \<open>g[iz, ir] = iz + 10 * ir\<close> with \<open>Nz = 3\<close>, \<open>Nr = 2\<close>.\<close>

definition example_grid :: array2d where
  "example_grid = \<lparr>shape0 = 3, shape1 = 2, cell = (\<lambda>(iz, ir). of_nat (iz + 10 * ir))\<rparr>"

section \<open>Launch plans\<close>

lemma cuda_tpb_bpg_1d_truediv_agrees:
  "0 \<le> x \<Longrightarrow> 0 < TPB \<Longrightarrow> cuda_tpb_bpg_1d_truediv x TPB = cuda_tpb_bpg_1d x TPB"
  by (simp add: cuda_tpb_bpg_1d_truediv_def cuda_tpb_bpg_1d_def py_int_def
      floor_divide_of_int_eq)

lemma div_plus_one_covers:
  fixes x TPB :: int
  assumes "0 < TPB"
  shows "x < (x div TPB + 1) * TPB"
proof -
  have 1: "TPB * (x div TPB) + x mod TPB = x" by (rule mult_div_mod_eq)
  have 2: "x mod TPB < TPB" using assms by simp
  have 3: "(x div TPB + 1) * TPB = TPB * (x div TPB) + TPB" by (simp add: algebra_simps)
  from 1 2 3 show ?thesis by linarith
qed

text \<open>
  Claim C4 (launch coverage). For every extent \<open>x \<ge> 0\<close> and every group size \<open>TPB > 0\<close>
  the plan of \<open>cuda_tpb_bpg_1d\<close> is returned without error, keeps the group size, and has
  \<open>BPG * TPB > x\<close>; the plan of \<open>cuda_tpb_bpg_2d\<close> has the same property in each of its
  two dimensions.
\<close>

theorem launch_plan_over_covers:
  assumes "0 \<le> x" and "0 \<le> y" and "0 < TPBx" and "0 < TPBy"
  shows "(\<exists>BPG. cuda_tpb_bpg_1d x TPBx = Inr (BPG, TPBx) \<and> x < BPG * TPBx) \<and>
         (\<exists>BPGx BPGy. cuda_tpb_bpg_2d x y TPBx TPBy = Inr ((BPGx, BPGy), (TPBx, TPBy)) \<and>
            x < BPGx * TPBx \<and> y < BPGy * TPBy)"
  using assms by (simp add: cuda_tpb_bpg_1d_def cuda_tpb_bpg_2d_def div_plus_one_covers)

theorem launch_plan_over_covers_witness:
  "cuda_tpb_bpg_1d 1000 256 = Inr (4, 256) \<and> (1000::int) < 4 * 256 \<and>
   cuda_tpb_bpg_2d 1000 30 256 8 = Inr ((4, 4), (256, 8)) \<and> (30::int) < 4 * 8"
  using launch_plan_over_covers [of 1000 30 256 8]
  by (simp add: cuda_tpb_bpg_1d_def cuda_tpb_bpg_2d_def)

text \<open>
  Claim C7 (launch-plan formula). For every extent \<open>x \<ge> 0\<close> and group size \<open>TPB > 0\<close>
  the number of groups is \<open>\<lfloor>x / TPB\<rfloor> + 1\<close>, in \<open>cuda_tpb_bpg_1d\<close> and in each dimension
  of \<open>cuda_tpb_bpg_2d\<close>. When \<open>TPB\<close> divides \<open>x\<close>, one group fewer tiles \<open>x\<close> exactly, so
  the plan holds one group more than needed; \<open>x = 256\<close>, \<open>TPB = 256\<close> gives 2 groups.
\<close>

theorem launch_plan_formula:
  assumes "0 \<le> x" and "0 \<le> y" and "0 < TPBx" and "0 < TPBy"
  shows "cuda_tpb_bpg_1d x TPBx = Inr (\<lfloor>real_of_int x / real_of_int TPBx\<rfloor> + 1, TPBx) \<and>
         cuda_tpb_bpg_2d x y TPBx TPBy =
           Inr ((\<lfloor>real_of_int x / real_of_int TPBx\<rfloor> + 1,
                 \<lfloor>real_of_int y / real_of_int TPBy\<rfloor> + 1), (TPBx, TPBy)) \<and>
         (TPBx dvd x \<longrightarrow>
            (\<exists>BPG. cuda_tpb_bpg_1d x TPBx = Inr (BPG, TPBx) \<and> (BPG - 1) * TPBx = x)) \<and>
         cuda_tpb_bpg_1d 256 256 = Inr (2, 256)"
  using assms
  by (simp add: cuda_tpb_bpg_1d_def cuda_tpb_bpg_2d_def floor_divide_of_int_eq)

theorem launch_plan_formula_witness:
  "cuda_tpb_bpg_1d 512 256 = Inr (\<lfloor>real_of_int 512 / real_of_int 256\<rfloor> + 1, 256) \<and>
   cuda_tpb_bpg_2d 512 20 256 8 =
     Inr ((\<lfloor>real_of_int 512 / real_of_int 256\<rfloor> + 1,
           \<lfloor>real_of_int 20 / real_of_int 8\<rfloor> + 1), (256, 8)) \<and>
   (256::int) dvd 512 \<and>
   (\<exists>BPG. cuda_tpb_bpg_1d 512 256 = Inr (BPG, 256) \<and> (BPG - 1) * 256 = 512)"
  using launch_plan_formula [of 512 20 256 8] by simp

text \<open>
  Claim C5 as stated (every extent \<open>x \<le> 0\<close> gives one group) fails at \<open>x = -1\<close>: the
  quotient \<open>-1/256\<close> is \<open>-1\<close> under floor division, so the plan has no group at all. Python 3
  gives the same plan there, \<open>int(-1/256 + 1) = int(0.996\<dots>) = 0\<close>.
\<close>

theorem plan1D_negative_extent_counterexample:
  "cuda_tpb_bpg_1d (- 1) 256 = Inr (0, 256) \<and>
   cuda_tpb_bpg_1d_truediv (- 1) 256 = Inr (0, 256) \<and>
   \<not> (\<forall>x TPB. x \<le> 0 \<and> 0 < TPB \<longrightarrow> (\<exists>T. cuda_tpb_bpg_1d x TPB = Inr (1, T)))"
proof -
  have 1: "cuda_tpb_bpg_1d (- 1) 256 = Inr (0, 256)"
    by (simp add: cuda_tpb_bpg_1d_def)
  have 2: "cuda_tpb_bpg_1d_truediv (- 1) 256 = Inr (0, 256)"
    by (simp add: cuda_tpb_bpg_1d_truediv_def py_int_def floor_eq_iff)
  have 3: "\<not> (\<forall>x TPB. x \<le> 0 \<and> 0 < TPB \<longrightarrow> (\<exists>T. cuda_tpb_bpg_1d x TPB = Inr (1, T)))"
  proof
    assume "\<forall>x TPB. x \<le> 0 \<and> 0 < TPB \<longrightarrow> (\<exists>T. cuda_tpb_bpg_1d x TPB = Inr (1, T))"
    then have "\<exists>T. cuda_tpb_bpg_1d (- 1) 256 = Inr (1, T)" by simp
    with 1 show False by simp
  qed
  from 1 2 3 show ?thesis by simp
qed

text \<open>
  Claim C5, amended. For a group size \<open>TPB > 0\<close> the plan is returned without error for
  every integer extent \<open>x\<close>, with \<open>x div TPB + 1\<close> groups: exactly one group when \<open>x = 0\<close>,
  and no group or a negative number of groups when \<open>x < 0\<close>. The only input that raises
  is \<open>TPB = 0\<close> (\<^verbatim>\<open>ZeroDivisionError\<close>).
\<close>

theorem plan1D_nonpositive_extent:
  "(0 < TPB \<longrightarrow>
      (\<exists>BPG. cuda_tpb_bpg_1d x TPB = Inr (BPG, TPB) \<and> BPG = x div TPB + 1 \<and>
         (x = 0 \<longrightarrow> BPG = 1) \<and> (x < 0 \<longrightarrow> BPG \<le> 0))) \<and>
   ((\<exists>e. cuda_tpb_bpg_1d x TPB = Inl e) \<longleftrightarrow> TPB = 0)"
proof -
  have "x div TPB + 1 \<le> 0" if "0 < TPB" and "x < 0"
  proof -
    from that have "x div TPB < 0" by (simp add: pos_imp_zdiv_neg_iff)
    then show ?thesis by simp
  qed
  then show ?thesis by (simp add: cuda_tpb_bpg_1d_def)
qed

theorem plan1D_nonpositive_extent_witness:
  "(0::int) < 256 \<and> cuda_tpb_bpg_1d 0 256 = Inr (1, 256) \<and>
   cuda_tpb_bpg_1d (- 300) 256 = Inr (- 1, 256) \<and>
   cuda_tpb_bpg_1d 5 0 = Inl ZeroDivisionError"
  using plan1D_nonpositive_extent [of 256 0] plan1D_nonpositive_extent [of 256 "- 300"]
    plan1D_nonpositive_extent [of 0 5]
  by (simp add: cuda_tpb_bpg_1d_def)

section \<open>Kernel launches\<close>

lemma cuda_launch_Cons_Inr:
  "cuda_launch body (tid # tids) s = Inr s' \<longleftrightarrow>
     (\<exists>s1. body tid s = Inr s1 \<and> cuda_launch body tids s1 = Inr s')"
  by (simp add: bind_err_def split: sum.splits)

text \<open>
  A relation between states that is reflexive and transitive and holds across every
  thread that completes holds across every launch that completes.
\<close>

lemma cuda_launch_preserves:
  assumes "cuda_launch body tids s = Inr s'"
    and "\<And>s. R s s"
    and "\<And>s1 s2 s3. R s1 s2 \<Longrightarrow> R s2 s3 \<Longrightarrow> R s1 s3"
    and "\<And>tid s1 s2. body tid s1 = Inr s2 \<Longrightarrow> R s1 s2"
  shows "R s s'"
  using assms(1)
proof (induction tids arbitrary: s)
  case Nil
  then show ?case using assms(2) by simp
next
  case (Cons tid tids)
  from Cons.prems obtain s1 where "body tid s = Inr s1" and "cuda_launch body tids s1 = Inr s'"
    unfolding cuda_launch_Cons_Inr by blast
  then show ?case using Cons.IH assms(3,4) by blast
qed

lemma in_shape_set_cell [simp]: "in_shape (set_cell a idx v) k = in_shape a k"
  by (simp add: in_shape_def set_cell_def)

lemma shape_set_cell [simp]:
  "shape0 (set_cell a idx v) = shape0 a" "shape1 (set_cell a idx v) = shape1 a"
  by (simp_all add: set_cell_def)

lemma cell_set_cell [simp]: "cell (set_cell a idx v) k = (if k = idx then v else cell a k)"
  by (simp add: set_cell_def)


lemma covers_grid_threads:
  "Nz \<le> fst bpg * fst tpb \<Longrightarrow> Nr \<le> snd bpg * snd tpb \<Longrightarrow> covers (grid_threads bpg tpb) Nz Nr"
  by (auto simp: covers_def grid_threads_def)

lemma distinct_grid_threads: "distinct (grid_threads bpg tpb)"
  by (simp add: grid_threads_def distinct_product)

lemma planned_grid_covers:
  assumes "cuda_tpb_bpg_2d (int Nz) (int Nr) TPBx TPBy = Inr ((BPGx, BPGy), tpb)"
    and "0 < TPBx" and "0 < TPBy"
  shows "covers (grid_threads (nat BPGx, nat BPGy) (nat TPBx, nat TPBy)) Nz Nr"
proof (rule covers_grid_threads)
  have bx: "BPGx = int Nz div TPBx + 1" and byy: "BPGy = int Nr div TPBy + 1"
    using assms by (simp_all add: cuda_tpb_bpg_2d_def)
  then have x: "int Nz < BPGx * TPBx" and y: "int Nr < BPGy * TPBy"
    using assms(2,3) by (simp_all add: div_plus_one_covers)
  have "0 \<le> int Nz div TPBx" "0 \<le> int Nr div TPBy"
    using assms(2,3) by (simp_all add: pos_imp_zdiv_nonneg_iff)
  then have "0 \<le> BPGx" "0 \<le> BPGy"
    using bx byy by simp_all
  then have "nat BPGx * nat TPBx = nat (BPGx * TPBx)" "nat BPGy * nat TPBy = nat (BPGy * TPBy)"
    by (simp_all add: nat_mult_distrib)
  then show "Nz \<le> fst (nat BPGx, nat BPGy) * fst (nat TPBx, nat TPBy)"
    and "Nr \<le> snd (nat BPGx, nat BPGy) * snd (nat TPBx, nat TPBy)"
    using x y by simp_all
qed

lemma rows_of_eqI:
  assumes "shape0 a = shape0 b" and "shape1 a = shape1 b"
    and "\<And>iz ir. iz < shape0 a \<Longrightarrow> ir < shape1 a \<Longrightarrow> cell a (iz, ir) = cell b (iz, ir)"
  shows "rows_of a = rows_of b"
  using assms by (simp add: rows_of_def)

lemma rows_of_example_grid: "rows_of example_grid = [[0, 10], [1, 11], [2, 12]]"
  by (simp add: rows_of_def example_grid_def upt_rec)

lemma bind_err_Inr [simp]: "bind_err (Inr v) f = f v"
  by (simp add: bind_err_def)

lemma cuda_launch_filter:
  assumes skip: "\<And>tid s. \<not> P s tid \<Longrightarrow> body tid s = Inr s"
    and keep: "\<And>tid s s'. body tid s = Inr s' \<Longrightarrow> P s' = P s"
  shows "cuda_launch body (filter (P s) tids) s = cuda_launch body tids s"
proof (induction tids arbitrary: s)
  case Nil
  show ?case by simp
next
  case (Cons tid tids)
  show ?case
  proof (cases "P s tid")
    case False
    then show ?thesis using Cons.IH [of s] skip [of s tid] by simp
  next
    case True
    show ?thesis
    proof (cases "body tid s")
      case (Inl e)
      with True show ?thesis by (simp add: bind_err_def)
    next
      case (Inr s')
      then have "P s' = P s" by (rule keep)
      with Cons.IH [of s'] True Inr show ?thesis by simp
    qed
  qed
qed

section \<open>Layout conversion\<close>

lemma flat_index_less:
  fixes iz ir Nz Nr :: nat
  assumes "iz < Nz" and "ir < Nr"
  shows "iz + Nz * ir < Nz * Nr"
proof -
  have "iz + Nz * ir < Nz + Nz * ir" using assms by simp
  also have "\<dots> = Nz * Suc ir" by simp
  also have "\<dots> \<le> Nz * Nr" using assms by (intro mult_le_mono2) simp
  finally show ?thesis .
qed

lemma flat_index_mod: "iz < Nz \<Longrightarrow> (iz + Nz * ir) mod Nz = (iz::nat)"
  by simp

lemma flat_index_div: "iz < Nz \<Longrightarrow> (iz + Nz * ir) div Nz = (ir::nat)"
  by simp

lemma flat_index_inverse:
  fixes i Nz Nr :: nat
  assumes "i < Nz * Nr"
  shows "i mod Nz < Nz" and "i div Nz < Nr" and "i mod Nz + Nz * (i div Nz) = i"
proof -
  from assms have "0 < Nz" by (cases Nz) simp_all
  then show "i mod Nz < Nz" by simp
  show "i div Nz < Nr" using assms by (simp add: less_mult_imp_div_less mult.commute)
  show "i mod Nz + Nz * (i div Nz) = i" by simp
qed

lemma copy_2d_to_1d_step:
  "cuda_copy_2d_to_1d tid g buf =
     (if in_shape g tid then
        (if fst tid + shape0 g * snd tid < length buf
         then Inr (buf[fst tid + shape0 g * snd tid := cell g tid]) else Inl OutOfBounds)
      else Inr buf)"
  by (cases tid)
    (simp add: cuda_copy_2d_to_1d_def in_shape_def getitem2_def setitem1_def bind_err_def)

lemma copy_1d_to_2d_step:
  "cuda_copy_1d_to_2d tid flat a =
     (if in_shape a tid then
        (if fst tid + shape0 a * snd tid < length flat
         then Inr (set_cell a tid (flat ! (fst tid + shape0 a * snd tid))) else Inl OutOfBounds)
      else Inr a)"
  by (cases tid)
    (simp add: cuda_copy_1d_to_2d_def in_shape_def getitem1_def setitem2_def bind_err_def
      set_cell_def)

lemma copy_2d_to_2d_step:
  "cuda_copy_2d_to_2d tid a out =
     (if in_shape a tid then
        (if in_shape out tid then Inr (set_cell out tid (cell a tid)) else Inl OutOfBounds)
      else Inr out)"
  by (cases tid)
    (simp add: cuda_copy_2d_to_2d_def in_shape_def getitem2_def setitem2_def bind_err_def
      set_cell_def)

lemma copy_2d_to_1d_launch:
  assumes "shape0 g * shape1 g \<le> length buf"
  shows "\<exists>out. cuda_launch (\<lambda>tid. cuda_copy_2d_to_1d tid g) tids buf = Inr out \<and>
           length out = length buf \<and>
           (\<forall>i < length buf. out ! i =
              (if i < shape0 g * shape1 g \<and> (i mod shape0 g, i div shape0 g) \<in> set tids
               then cell g (i mod shape0 g, i div shape0 g) else buf ! i))"
  using assms
proof (induction tids arbitrary: buf)
  case Nil
  then show ?case by simp
next
  case (Cons tid tids)
  obtain iz ir where tid: "tid = (iz, ir)" by (cases tid)
  let ?i = "iz + shape0 g * ir"
  let ?b1 = "if in_shape g tid then buf[?i := cell g tid] else buf"
  have step: "cuda_copy_2d_to_1d tid g buf = Inr ?b1"
  proof (cases "in_shape g tid")
    case True
    then have "?i < shape0 g * shape1 g"
      unfolding in_shape_def tid by (simp add: flat_index_less)
    with Cons.prems True show ?thesis by (simp add: copy_2d_to_1d_step tid)
  next
    case False
    then show ?thesis by (simp add: copy_2d_to_1d_step)
  qed
  have len: "length ?b1 = length buf" by simp
  from Cons.IH [of ?b1] Cons.prems len
  obtain out where run: "cuda_launch (\<lambda>tid. cuda_copy_2d_to_1d tid g) tids ?b1 = Inr out"
    and lo: "length out = length buf"
    and vals: "\<forall>i < length buf. out ! i =
              (if i < shape0 g * shape1 g \<and> (i mod shape0 g, i div shape0 g) \<in> set tids
               then cell g (i mod shape0 g, i div shape0 g) else ?b1 ! i)"
    by (metis (no_types, lifting))
  have 1: "cuda_launch (\<lambda>tid. cuda_copy_2d_to_1d tid g) (tid # tids) buf = Inr out"
    using step run by (simp add: bind_err_def)
  have 3: "out ! i =
              (if i < shape0 g * shape1 g \<and> (i mod shape0 g, i div shape0 g) \<in> set (tid # tids)
               then cell g (i mod shape0 g, i div shape0 g) else buf ! i)"
    if i: "i < length buf" for i
  proof (cases "i < shape0 g * shape1 g \<and> (i mod shape0 g, i div shape0 g) \<in> set tids")
    case True
    then show ?thesis using vals i by simp
  next
    case False
    then have o: "out ! i = ?b1 ! i" using vals i by auto
    show ?thesis
    proof (cases "in_shape g tid")
      case ins: True
      then have izr: "iz < shape0 g" "ir < shape1 g" by (simp_all add: in_shape_def tid)
      show ?thesis
      proof (cases "i = ?i")
        case True
        have "i mod shape0 g = iz" "i div shape0 g = ir"
          using izr by (simp_all add: True)
        moreover have "i < shape0 g * shape1 g" using izr by (simp add: True flat_index_less)
        ultimately show ?thesis using o ins i by (simp add: tid True)
      next
        case ne: False
        have "(i mod shape0 g, i div shape0 g) \<noteq> tid" if "i < shape0 g * shape1 g"
        proof
          assume "(i mod shape0 g, i div shape0 g) = tid"
          then have "iz = i mod shape0 g" "ir = i div shape0 g" by (simp_all add: tid)
          then have "?i = i" by simp
          with ne show False by simp
        qed
        then show ?thesis using o ins ne False by (auto simp: tid)
      qed
    next
      case nins: False
      have "(i mod shape0 g, i div shape0 g) \<noteq> tid" if "i < shape0 g * shape1 g"
        using flat_index_inverse(1,2) [OF that] nins by (auto simp: in_shape_def)
      then show ?thesis using o nins False by auto
    qed
  qed
  from 1 lo 3 show ?case by blast
qed

lemma copy_1d_to_2d_launch:
  assumes "shape0 a * shape1 a \<le> length flat"
  shows "\<exists>out. cuda_launch (\<lambda>tid. cuda_copy_1d_to_2d tid flat) tids a = Inr out \<and>
           shape0 out = shape0 a \<and> shape1 out = shape1 a \<and>
           (\<forall>idx. cell out idx =
              (if in_shape a idx \<and> idx \<in> set tids
               then flat ! (fst idx + shape0 a * snd idx) else cell a idx))"
  using assms
proof (induction tids arbitrary: a)
  case Nil
  then show ?case by simp
next
  case (Cons tid tids)
  let ?i = "fst tid + shape0 a * snd tid"
  let ?a1 = "if in_shape a tid then set_cell a tid (flat ! ?i) else a"
  have step: "cuda_copy_1d_to_2d tid flat a = Inr ?a1"
  proof (cases "in_shape a tid")
    case True
    then have "?i < shape0 a * shape1 a"
      unfolding in_shape_def by (simp add: flat_index_less)
    with Cons.prems True show ?thesis by (simp add: copy_1d_to_2d_step)
  next
    case False
    then show ?thesis by (simp add: copy_1d_to_2d_step)
  qed
  have sh: "shape0 ?a1 = shape0 a" "shape1 ?a1 = shape1 a" by (simp_all add: set_cell_def)
  have ins: "in_shape ?a1 idx = in_shape a idx" for idx by (simp add: in_shape_def set_cell_def)
  from Cons.IH [of ?a1] Cons.prems sh
  obtain out where run: "cuda_launch (\<lambda>tid. cuda_copy_1d_to_2d tid flat) tids ?a1 = Inr out"
    and so: "shape0 out = shape0 a" "shape1 out = shape1 a"
    and vals: "\<forall>idx. cell out idx =
              (if in_shape ?a1 idx \<and> idx \<in> set tids
               then flat ! (fst idx + shape0 ?a1 * snd idx) else cell ?a1 idx)"
    by (metis (no_types, lifting))
  have 1: "cuda_launch (\<lambda>tid. cuda_copy_1d_to_2d tid flat) (tid # tids) a = Inr out"
    using step run by (simp add: bind_err_def)
  have 3: "cell out idx =
              (if in_shape a idx \<and> idx \<in> set (tid # tids)
               then flat ! (fst idx + shape0 a * snd idx) else cell a idx)" for idx
    using vals [rule_format, of idx] by (auto simp: ins sh set_cell_def)
  from 1 so 3 show ?case by blast
qed

lemma copy_2d_to_2d_launch:
  assumes "shape0 a \<le> shape0 out0" and "shape1 a \<le> shape1 out0"
  shows "\<exists>out. cuda_launch (\<lambda>tid. cuda_copy_2d_to_2d tid a) tids out0 = Inr out \<and>
           shape0 out = shape0 out0 \<and> shape1 out = shape1 out0 \<and>
           (\<forall>idx. cell out idx =
              (if in_shape a idx \<and> idx \<in> set tids then cell a idx else cell out0 idx))"
  using assms
proof (induction tids arbitrary: out0)
  case Nil
  then show ?case by simp
next
  case (Cons tid tids)
  let ?o1 = "if in_shape a tid then set_cell out0 tid (cell a tid) else out0"
  have step: "cuda_copy_2d_to_2d tid a out0 = Inr ?o1"
    using Cons.prems by (auto simp: copy_2d_to_2d_step in_shape_def)
  have sh: "shape0 ?o1 = shape0 out0" "shape1 ?o1 = shape1 out0" by (simp_all add: set_cell_def)
  from Cons.IH [of ?o1] Cons.prems sh
  obtain out where run: "cuda_launch (\<lambda>tid. cuda_copy_2d_to_2d tid a) tids ?o1 = Inr out"
    and so: "shape0 out = shape0 out0" "shape1 out = shape1 out0"
    and vals: "\<forall>idx. cell out idx =
              (if in_shape a idx \<and> idx \<in> set tids then cell a idx else cell ?o1 idx)"
    by (metis (no_types, lifting))
  have 1: "cuda_launch (\<lambda>tid. cuda_copy_2d_to_2d tid a) (tid # tids) out0 = Inr out"
    using step run by (simp add: bind_err_def)
  have 3: "cell out idx =
              (if in_shape a idx \<and> idx \<in> set (tid # tids) then cell a idx else cell out0 idx)" for idx
    using vals [rule_format, of idx] by (auto simp: set_cell_def)
  from 1 so 3 show ?case by blast
qed

lemma copy_2d_to_1d_covered:
  assumes "covers tids (shape0 g) (shape1 g)" and "shape0 g * shape1 g \<le> length buf"
  shows "\<exists>out. cuda_launch (\<lambda>tid. cuda_copy_2d_to_1d tid g) tids buf = Inr out \<and>
           length out = length buf \<and>
           (\<forall>iz < shape0 g. \<forall>ir < shape1 g. out ! (iz + shape0 g * ir) = cell g (iz, ir)) \<and>
           (\<forall>i. shape0 g * shape1 g \<le> i \<and> i < length buf \<longrightarrow> out ! i = buf ! i)"
proof -
  from copy_2d_to_1d_launch [OF assms(2), of tids]
  obtain out where run: "cuda_launch (\<lambda>tid. cuda_copy_2d_to_1d tid g) tids buf = Inr out"
    and len: "length out = length buf"
    and vals: "\<forall>i < length buf. out ! i =
              (if i < shape0 g * shape1 g \<and> (i mod shape0 g, i div shape0 g) \<in> set tids
               then cell g (i mod shape0 g, i div shape0 g) else buf ! i)"
    by blast
  have "out ! (iz + shape0 g * ir) = cell g (iz, ir)" if "iz < shape0 g" "ir < shape1 g" for iz ir
  proof -
    have lt: "iz + shape0 g * ir < shape0 g * shape1 g" using that by (rule flat_index_less)
    have "(iz, ir) \<in> set tids" using assms(1) that by (simp add: covers_def)
    then show ?thesis
      using vals [rule_format, of "iz + shape0 g * ir"] lt assms(2) that(1) by simp
  qed
  moreover have "out ! i = buf ! i" if "shape0 g * shape1 g \<le> i" "i < length buf" for i
    using vals [rule_format, of i] that by simp
  ultimately show ?thesis using run len by blast
qed

lemma copy_1d_to_2d_covered:
  assumes "covers tids (shape0 a) (shape1 a)" and "shape0 a * shape1 a \<le> length flat"
  shows "\<exists>out. cuda_launch (\<lambda>tid. cuda_copy_1d_to_2d tid flat) tids a = Inr out \<and>
           shape0 out = shape0 a \<and> shape1 out = shape1 a \<and>
           (\<forall>iz < shape0 a. \<forall>ir < shape1 a. cell out (iz, ir) = flat ! (iz + shape0 a * ir)) \<and>
           (\<forall>idx. \<not> in_shape a idx \<longrightarrow> cell out idx = cell a idx)"
proof -
  from copy_1d_to_2d_launch [OF assms(2), of tids]
  obtain out where run: "cuda_launch (\<lambda>tid. cuda_copy_1d_to_2d tid flat) tids a = Inr out"
    and sh: "shape0 out = shape0 a" "shape1 out = shape1 a"
    and vals: "\<forall>idx. cell out idx =
              (if in_shape a idx \<and> idx \<in> set tids
               then flat ! (fst idx + shape0 a * snd idx) else cell a idx)"
    by blast
  have "cell out (iz, ir) = flat ! (iz + shape0 a * ir)" if "iz < shape0 a" "ir < shape1 a" for iz ir
  proof -
    have "(iz, ir) \<in> set tids" using assms(1) that by (simp add: covers_def)
    then show ?thesis using vals [rule_format, of "(iz, ir)"] that by (simp add: in_shape_def)
  qed
  moreover have "cell out idx = cell a idx" if "\<not> in_shape a idx" for idx
    using vals [rule_format, of idx] that by simp
  ultimately show ?thesis using run sh by blast
qed

text \<open>
  Claim C3 (round trip of the layout conversion). Let \<open>g\<close> be a grid of shape \<open>Nz \<times> Nr\<close>,
  \<open>buf\<close> a flat buffer of length \<open>Nz * Nr\<close> and \<open>out0\<close> a grid of the same shape as \<open>g\<close>, with
  any contents. Packing \<open>g\<close> into \<open>buf\<close> with \<open>cuda_copy_2d_to_1d\<close> and unpacking the result
  into \<open>out0\<close> with \<open>cuda_copy_1d_to_2d\<close> both complete, under every schedule that covers
  the grid, and the unpacked grid equals \<open>g\<close> element for element.
\<close>

theorem layout_round_trip:
  assumes "covers tids1 (shape0 g) (shape1 g)" and "covers tids2 (shape0 g) (shape1 g)"
    and "length buf = shape0 g * shape1 g"
    and "shape0 out0 = shape0 g" and "shape1 out0 = shape1 g"
  shows "\<exists>flat out.
           cuda_launch (\<lambda>tid. cuda_copy_2d_to_1d tid g) tids1 buf = Inr flat \<and>
           length flat = shape0 g * shape1 g \<and>
           cuda_launch (\<lambda>tid. cuda_copy_1d_to_2d tid flat) tids2 out0 = Inr out \<and>
           shape0 out = shape0 g \<and> shape1 out = shape1 g \<and>
           (\<forall>iz < shape0 g. \<forall>ir < shape1 g. cell out (iz, ir) = cell g (iz, ir))"
proof -
  have "shape0 g * shape1 g \<le> length buf" using assms(3) by simp
  from copy_2d_to_1d_covered [OF assms(1) this]
  obtain flat where 1: "cuda_launch (\<lambda>tid. cuda_copy_2d_to_1d tid g) tids1 buf = Inr flat"
    and 2: "length flat = length buf"
    and 3: "\<forall>iz < shape0 g. \<forall>ir < shape1 g. flat ! (iz + shape0 g * ir) = cell g (iz, ir)"
    by blast
  have c2: "covers tids2 (shape0 out0) (shape1 out0)" using assms(2,4,5) by simp
  have l2: "shape0 out0 * shape1 out0 \<le> length flat" using 2 assms(3,4,5) by simp
  from copy_1d_to_2d_covered [OF c2 l2]
  obtain out where 4: "cuda_launch (\<lambda>tid. cuda_copy_1d_to_2d tid flat) tids2 out0 = Inr out"
    and 5: "shape0 out = shape0 out0" "shape1 out = shape1 out0"
    and 6: "\<forall>iz < shape0 out0. \<forall>ir < shape1 out0. cell out (iz, ir) = flat ! (iz + shape0 out0 * ir)"
    by blast
  have "\<forall>iz < shape0 g. \<forall>ir < shape1 g. cell out (iz, ir) = cell g (iz, ir)"
    using 3 6 assms(4,5) by simp
  with 1 2 4 5 assms(3,4,5) show ?thesis by simp
qed

theorem layout_round_trip_witness:
  "\<exists>flat out.
     cuda_launch (\<lambda>tid. cuda_copy_2d_to_1d tid example_grid) (grid_threads (1, 1) (8, 8))
       (replicate 6 7) = Inr flat \<and>
     cuda_launch (\<lambda>tid. cuda_copy_1d_to_2d tid flat) (grid_threads (1, 1) (8, 8))
       (array_of_rows 3 2 [[7, 7], [7, 7], [7, 7]]) = Inr out \<and>
     rows_of out = rows_of example_grid"
proof -
  have c: "covers (grid_threads (1, 1) (8, 8)) (shape0 example_grid) (shape1 example_grid)"
    by (rule covers_grid_threads) (simp_all add: example_grid_def)
  have l: "length (replicate 6 (7::complex)) = shape0 example_grid * shape1 example_grid"
    by (simp add: example_grid_def)
  have s: "shape0 (array_of_rows 3 2 [[7, 7], [7, 7], [7, 7]]) = shape0 example_grid"
    "shape1 (array_of_rows 3 2 [[7, 7], [7, 7], [7, 7]]) = shape1 example_grid"
    by (simp_all add: example_grid_def array_of_rows_def)
  from layout_round_trip [OF c c l s] show ?thesis
    by (metis rows_of_eqI)
qed

lemma list6_eqI:
  assumes "length xs = 6" and "xs ! 0 = a" "xs ! 1 = b" "xs ! 2 = c" "xs ! 3 = d" "xs ! 4 = e"
    "xs ! 5 = f"
  shows "xs = [a, b, c, d, e, f]"
proof (rule nth_equalityI)
  show "length xs = length [a, b, c, d, e, f]" using assms(1) by simp
  fix i assume "i < length xs"
  then have "i = 0 \<or> i = 1 \<or> i = 2 \<or> i = 3 \<or> i = 4 \<or> i = 5" using assms(1) by arith
  then show "xs ! i = [a, b, c, d, e, f] ! i" using assms(2-) by auto
qed

text \<open>
  Claim C8 (the flattening formula). For a grid of shape \<open>Nz \<times> Nr\<close> and a flat buffer of
  length \<open>Nz * Nr\<close>, a launch of \<open>cuda_copy_2d_to_1d\<close> whose schedule covers the grid completes
  and leaves \<open>out1D[iz + Nz * ir] = in2D[iz, ir]\<close> for every valid \<open>(iz, ir)\<close>. For the grid
  \<open>g[iz, ir] = iz + 10 * ir\<close> with \<open>Nz = 3\<close>, \<open>Nr = 2\<close> the flat array is
  \<open>[0, 1, 2, 10, 11, 12]\<close>, whatever the buffer held before, and \<open>cuda_copy_1d_to_2d\<close> turns that
  flat array back into \<open>g\<close>.
\<close>

theorem flatten_formula:
  assumes "covers tids (shape0 array_2d) (shape1 array_2d)"
    and "length array_1d = shape0 array_2d * shape1 array_2d"
  shows "(\<exists>out1D. cuda_launch (\<lambda>tid. cuda_copy_2d_to_1d tid array_2d) tids array_1d = Inr out1D \<and>
            length out1D = shape0 array_2d * shape1 array_2d \<and>
            (\<forall>iz < shape0 array_2d. \<forall>ir < shape1 array_2d.
               out1D ! (iz + shape0 array_2d * ir) = cell array_2d (iz, ir))) \<and>
         (\<forall>tids1 buf. covers tids1 3 2 \<and> length buf = 6 \<longrightarrow>
            cuda_launch (\<lambda>tid. cuda_copy_2d_to_1d tid example_grid) tids1 buf =
              Inr [0, 1, 2, 10, 11, 12]) \<and>
         (\<forall>tids2 out0. covers tids2 3 2 \<and> shape0 out0 = 3 \<and> shape1 out0 = 2 \<longrightarrow>
            (\<exists>out2D. cuda_launch (\<lambda>tid. cuda_copy_1d_to_2d tid [0, 1, 2, 10, 11, 12]) tids2 out0 =
                 Inr out2D \<and>
               shape0 out2D = 3 \<and> shape1 out2D = 2 \<and> rows_of out2D = rows_of example_grid))"
proof (intro conjI allI impI)
  have "shape0 array_2d * shape1 array_2d \<le> length array_1d" using assms(2) by simp
  from copy_2d_to_1d_covered [OF assms(1) this] assms(2)
  show "\<exists>out1D. cuda_launch (\<lambda>tid. cuda_copy_2d_to_1d tid array_2d) tids array_1d = Inr out1D \<and>
            length out1D = shape0 array_2d * shape1 array_2d \<and>
            (\<forall>iz < shape0 array_2d. \<forall>ir < shape1 array_2d.
               out1D ! (iz + shape0 array_2d * ir) = cell array_2d (iz, ir))"
    by auto
next
  fix tids1 :: "(nat \<times> nat) list" and buf :: array1d
  assume a: "covers tids1 3 2 \<and> length buf = 6"
  have sh: "shape0 example_grid = 3" "shape1 example_grid = 2" by (simp_all add: example_grid_def)
  have c: "covers tids1 (shape0 example_grid) (shape1 example_grid)" using a sh by simp
  have l: "shape0 example_grid * shape1 example_grid \<le> length buf" using a sh by simp
  from copy_2d_to_1d_covered [OF c l]
  obtain out where run: "cuda_launch (\<lambda>tid. cuda_copy_2d_to_1d tid example_grid) tids1 buf = Inr out"
    and len: "length out = length buf"
    and vals: "\<And>iz ir. iz < 3 \<Longrightarrow> ir < 2 \<Longrightarrow> out ! (iz + 3 * ir) = cell example_grid (iz, ir)"
    unfolding sh by blast
  have "out ! 0 = 0" using vals [of 0 0] by (simp add: example_grid_def)
  moreover have "out ! 1 = 1" using vals [of 1 0] by (simp add: example_grid_def)
  moreover have "out ! 2 = 2" using vals [of 2 0] by (simp add: example_grid_def)
  moreover have "out ! 3 = 10" using vals [of 0 1] by (simp add: example_grid_def)
  moreover have "out ! 4 = 11" using vals [of 1 1] by (simp add: example_grid_def)
  moreover have "out ! 5 = 12" using vals [of 2 1] by (simp add: example_grid_def)
  moreover have "length out = 6" using len a by simp
  ultimately have "out = [0, 1, 2, 10, 11, 12]" by (intro list6_eqI)
  with run show "cuda_launch (\<lambda>tid. cuda_copy_2d_to_1d tid example_grid) tids1 buf =
              Inr [0, 1, 2, 10, 11, 12]" by simp
next
  fix tids2 :: "(nat \<times> nat) list" and out0 :: array2d
  assume a: "covers tids2 3 2 \<and> shape0 out0 = 3 \<and> shape1 out0 = 2"
  let ?flat = "[0, 1, 2, 10, 11, 12] :: complex list"
  have c: "covers tids2 (shape0 out0) (shape1 out0)" using a by simp
  have l: "shape0 out0 * shape1 out0 \<le> length ?flat" using a by simp
  from copy_1d_to_2d_covered [OF c l]
  obtain out where run: "cuda_launch (\<lambda>tid. cuda_copy_1d_to_2d tid ?flat) tids2 out0 = Inr out"
    and sh: "shape0 out = 3" "shape1 out = 2"
    and vals: "\<And>iz ir. iz < 3 \<Longrightarrow> ir < 2 \<Longrightarrow> cell out (iz, ir) = ?flat ! (iz + 3 * ir)"
    using a by auto
  have "rows_of out = [[0, 10], [1, 11], [2, 12]]"
    using vals [of 0 0] vals [of 0 1] vals [of 1 0] vals [of 1 1] vals [of 2 0] vals [of 2 1]
    by (simp add: rows_of_def sh upt_rec numeral_2_eq_2)
  then have "rows_of out = rows_of example_grid" by (simp add: rows_of_example_grid)
  with run sh
  show "\<exists>out2D. cuda_launch (\<lambda>tid. cuda_copy_1d_to_2d tid ?flat) tids2 out0 = Inr out2D \<and>
               shape0 out2D = 3 \<and> shape1 out2D = 2 \<and> rows_of out2D = rows_of example_grid"
    by blast
qed

theorem flatten_formula_witness:
  "covers (grid_threads (1, 1) (8, 8)) 3 2 \<and>
   cuda_launch (\<lambda>tid. cuda_copy_2d_to_1d tid example_grid) (grid_threads (1, 1) (8, 8))
     (replicate 6 7) = Inr [0, 1, 2, 10, 11, 12] \<and>
   (\<exists>out2D. cuda_launch (\<lambda>tid. cuda_copy_1d_to_2d tid [0, 1, 2, 10, 11, 12])
       (grid_threads (1, 1) (8, 8)) (array_of_rows 3 2 [[7, 7], [7, 7], [7, 7]]) = Inr out2D \<and>
     rows_of out2D = [[0, 10], [1, 11], [2, 12]])"
proof -
  have c: "covers (grid_threads (1, 1) (8, 8)) 3 2"
    by (rule covers_grid_threads) simp_all
  have c': "covers (grid_threads (1, 1) (8, 8)) (shape0 example_grid) (shape1 example_grid)"
    using c by (simp add: example_grid_def)
  have l: "length (replicate 6 (7::complex)) = shape0 example_grid * shape1 example_grid"
    by (simp add: example_grid_def)
  have s: "shape0 (array_of_rows 3 2 [[7, 7], [7, 7], [7, 7]]) = 3"
    "shape1 (array_of_rows 3 2 [[7, 7], [7, 7], [7, 7]]) = 2"
    by (simp_all add: array_of_rows_def)
  note t = flatten_formula [OF c' l]
  have 1: "cuda_launch (\<lambda>tid. cuda_copy_2d_to_1d tid example_grid) (grid_threads (1, 1) (8, 8))
     (replicate 6 7) = Inr [0, 1, 2, 10, 11, 12]"
    using t c by simp
  have 2: "\<exists>out2D. cuda_launch (\<lambda>tid. cuda_copy_1d_to_2d tid [0, 1, 2, 10, 11, 12])
       (grid_threads (1, 1) (8, 8)) (array_of_rows 3 2 [[7, 7], [7, 7], [7, 7]]) = Inr out2D \<and>
     rows_of out2D = [[0, 10], [1, 11], [2, 12]]"
    using t c s by (metis rows_of_example_grid)
  from c 1 2 show ?thesis by blast
qed

lemma launch_skips_2d_to_2d:
  "cuda_launch (\<lambda>tid. cuda_copy_2d_to_2d tid a) (filter (in_shape a) tids) out0 =
   cuda_launch (\<lambda>tid. cuda_copy_2d_to_2d tid a) tids out0"
  by (rule cuda_launch_filter [where P = "\<lambda>_. in_shape a"]) (simp_all add: copy_2d_to_2d_step)

lemma launch_skips_2d_to_1d:
  "cuda_launch (\<lambda>tid. cuda_copy_2d_to_1d tid g) (filter (in_shape g) tids) buf =
   cuda_launch (\<lambda>tid. cuda_copy_2d_to_1d tid g) tids buf"
  by (rule cuda_launch_filter [where P = "\<lambda>_. in_shape g"]) (simp_all add: copy_2d_to_1d_step)

lemma launch_skips_1d_to_2d:
  "cuda_launch (\<lambda>tid. cuda_copy_1d_to_2d tid flat) (filter (in_shape a) tids) a =
   cuda_launch (\<lambda>tid. cuda_copy_1d_to_2d tid flat) tids a"
proof (rule cuda_launch_filter [where P = in_shape])
  show "cuda_copy_1d_to_2d tid flat s = Inr s" if "\<not> in_shape s tid" for tid s
    using that by (simp add: copy_1d_to_2d_step)
  show "in_shape s' = in_shape s" if "cuda_copy_1d_to_2d tid flat s = Inr s'" for tid s s'
    using that by (auto simp: copy_1d_to_2d_step fun_eq_iff split: if_splits)
qed

text \<open>
  Claim C6 (the guard of the copies). Each copy kernel runs over the 2-D index space
  bounded by the declared extents \<open>Nz \<times> Nr\<close> of the grid being copied, which the kernel
  reads from the shape of its 2-D argument. A worker whose position is at or beyond
  either extent returns the output unchanged, without error; hence a launch does what
  the launch of only the workers inside the extents does. For \<open>cuda_copy_1d_to_2d\<close> the
  source is flat; when it holds \<open>Nz * Nr\<close> elements, as the kernel requires, a worker whose
  index into it is at or beyond its end is skipped as well, so the source is never read
  out of range.
\<close>

theorem copy_guard:
  "(\<not> in_shape array_in tid \<longrightarrow> cuda_copy_2d_to_2d tid array_in array_out = Inr array_out) \<and>
   (\<not> in_shape array_2d tid \<longrightarrow> cuda_copy_2d_to_1d tid array_2d array_1d = Inr array_1d) \<and>
   (\<not> in_shape array_2d tid \<longrightarrow> cuda_copy_1d_to_2d tid array_1d array_2d = Inr array_2d) \<and>
   (length array_1d = shape0 array_2d * shape1 array_2d \<longrightarrow>
      length array_1d \<le> fst tid + shape0 array_2d * snd tid \<longrightarrow>
      cuda_copy_1d_to_2d tid array_1d array_2d = Inr array_2d) \<and>
   cuda_launch (\<lambda>tid. cuda_copy_2d_to_2d tid array_in) (filter (in_shape array_in) tids) array_out =
     cuda_launch (\<lambda>tid. cuda_copy_2d_to_2d tid array_in) tids array_out \<and>
   cuda_launch (\<lambda>tid. cuda_copy_2d_to_1d tid array_2d) (filter (in_shape array_2d) tids) array_1d =
     cuda_launch (\<lambda>tid. cuda_copy_2d_to_1d tid array_2d) tids array_1d \<and>
   cuda_launch (\<lambda>tid. cuda_copy_1d_to_2d tid array_1d) (filter (in_shape array_2d) tids) array_2d =
     cuda_launch (\<lambda>tid. cuda_copy_1d_to_2d tid array_1d) tids array_2d"
proof -
  have "\<not> in_shape array_2d tid"
    if "length array_1d = shape0 array_2d * shape1 array_2d"
      and "length array_1d \<le> fst tid + shape0 array_2d * snd tid"
  proof
    assume "in_shape array_2d tid"
    then have "fst tid + shape0 array_2d * snd tid < shape0 array_2d * shape1 array_2d"
      by (simp add: in_shape_def flat_index_less)
    with that show False by simp
  qed
  then show ?thesis
    by (simp add: copy_2d_to_2d_step copy_2d_to_1d_step copy_1d_to_2d_step
        launch_skips_2d_to_2d launch_skips_2d_to_1d launch_skips_1d_to_2d)
qed

theorem copy_guard_witness:
  "\<not> in_shape example_grid (0, 2) \<and>
   length [7, 7, 7, 7, 7, 7 :: complex] = shape0 example_grid * shape1 example_grid \<and>
   length [7, 7, 7, 7, 7, 7 :: complex] \<le> fst (0 :: nat, 2 :: nat) + shape0 example_grid * snd (0 :: nat, 2 :: nat) \<and>
   cuda_copy_2d_to_2d (0, 2) example_grid (array_of_rows 3 3 [[7, 7, 7], [7, 7, 7], [7, 7, 7]]) =
     Inr (array_of_rows 3 3 [[7, 7, 7], [7, 7, 7], [7, 7, 7]]) \<and>
   cuda_copy_2d_to_1d (0, 2) example_grid [7, 7, 7, 7, 7, 7, 7] = Inr [7, 7, 7, 7, 7, 7, 7] \<and>
   cuda_copy_1d_to_2d (0, 2) [7, 7, 7, 7, 7, 7] example_grid = Inr example_grid"
proof -
  have n: "\<not> in_shape example_grid (0, 2)"
    by (simp add: in_shape_def example_grid_def)
  have l: "length [7, 7, 7, 7, 7, 7 :: complex] = shape0 example_grid * shape1 example_grid"
    by (simp add: example_grid_def)
  have b: "length [7, 7, 7, 7, 7, 7 :: complex] \<le>
      fst (0 :: nat, 2 :: nat) + shape0 example_grid * snd (0 :: nat, 2 :: nat)"
    by (simp add: example_grid_def)
  note t = copy_guard [where array_in = example_grid and tid = "(0, 2)"
      and array_out = "array_of_rows 3 3 [[7, 7, 7], [7, 7, 7], [7, 7, 7]]"
      and array_2d = example_grid]
  have 1: "cuda_copy_2d_to_2d (0, 2) example_grid
      (array_of_rows 3 3 [[7, 7, 7], [7, 7, 7], [7, 7, 7]]) =
     Inr (array_of_rows 3 3 [[7, 7, 7], [7, 7, 7], [7, 7, 7]])"
    using t [THEN conjunct1] n by simp
  have 2: "cuda_copy_2d_to_1d (0, 2) example_grid [7, 7, 7, 7, 7, 7, 7] = Inr [7, 7, 7, 7, 7, 7, 7]"
    using t [where array_1d = "[7, 7, 7, 7, 7, 7, 7]", THEN conjunct2, THEN conjunct1] n by simp
  have 3: "cuda_copy_1d_to_2d (0, 2) [7, 7, 7, 7, 7, 7] example_grid = Inr example_grid"
    using t [where array_1d = "[7, 7, 7, 7, 7, 7]", THEN conjunct2, THEN conjunct2,
        THEN conjunct2, THEN conjunct1] l b by simp
  from n l b 1 2 3 show ?thesis by simp
qed

section \<open>Change of basis\<close>

lemma cuda_rt_to_pm_combine:
  "cuda_rt_to_pm tid r t p m h =
     combine_kernel (\<lambda>x y. 0.5 * (x - \<i> * y)) (\<lambda>x y. 0.5 * (x + \<i> * y)) tid r t p m h"
  by (cases tid) (simp add: cuda_rt_to_pm_def combine_kernel_def in_shape_def)

lemma cuda_pm_to_rt_combine:
  "cuda_pm_to_rt tid p m r t h =
     combine_kernel (\<lambda>x y. x + y) (\<lambda>x y. \<i> * (x - y)) tid p m r t h"
  by (cases tid) (simp add: cuda_pm_to_rt_def combine_kernel_def in_shape_def)

lemma combine_kernel_step:
  assumes "c \<noteq> d"
    and "in_shape (h a) tid \<Longrightarrow> in_shape (h b) tid \<and> in_shape (h c) tid \<and> in_shape (h d) tid"
  shows "combine_kernel f g tid a b c d h =
     Inr (if in_shape (h a) tid
          then h(c := set_cell (h c) tid (f (cell (h a) tid) (cell (h b) tid)),
                 d := set_cell (h d) tid (g (cell (h a) tid) (cell (h b) tid)))
          else h)"
  using assms
  by (simp add: combine_kernel_def load_def store_def getitem2_def setitem2_def bind_err_def
      set_cell_def)

lemma combine_kernel_launch:
  assumes "distinct tids" and "c \<noteq> d"
    and "fits h a b" and "fits h a c" and "fits h a d"
  shows "\<exists>h'. cuda_launch (\<lambda>tid. combine_kernel f g tid a b c d) tids h = Inr h' \<and>
           (\<forall>x. x \<noteq> c \<and> x \<noteq> d \<longrightarrow> h' x = h x) \<and>
           (\<forall>x. shape0 (h' x) = shape0 (h x) \<and> shape1 (h' x) = shape1 (h x)) \<and>
           (\<forall>idx. cell (h' c) idx =
              (if idx \<in> set tids \<and> in_shape (h a) idx
               then f (cell (h a) idx) (cell (h b) idx) else cell (h c) idx)) \<and>
           (\<forall>idx. cell (h' d) idx =
              (if idx \<in> set tids \<and> in_shape (h a) idx
               then g (cell (h a) idx) (cell (h b) idx) else cell (h d) idx))"
  using assms
proof (induction tids arbitrary: h)
  case Nil
  then show ?case by simp
next
  case (Cons tid tids)
  let ?h1 = "if in_shape (h a) tid
          then h(c := set_cell (h c) tid (f (cell (h a) tid) (cell (h b) tid)),
                 d := set_cell (h d) tid (g (cell (h a) tid) (cell (h b) tid)))
          else h"
  have inb: "in_shape (h a) tid \<Longrightarrow> in_shape (h b) tid \<and> in_shape (h c) tid \<and> in_shape (h d) tid"
    using Cons.prems by (auto simp: fits_def in_shape_def)
  have step: "combine_kernel f g tid a b c d h = Inr ?h1"
    by (rule combine_kernel_step [OF \<open>c \<noteq> d\<close> inb])
  have sh: "shape0 (?h1 x) = shape0 (h x) \<and> shape1 (?h1 x) = shape1 (h x)" for x
    by simp
  have cl: "cell (?h1 x) idx = cell (h x) idx" if "idx \<noteq> tid" for x idx
    using that by simp
  have f1: "fits ?h1 a b" "fits ?h1 a c" "fits ?h1 a d"
    using Cons.prems(3-5) unfolding fits_def by (simp_all only: sh)
  have d1: "distinct tids" and nin: "tid \<notin> set tids" using Cons.prems(1) by simp_all
  from Cons.IH [OF d1 \<open>c \<noteq> d\<close> f1]
  obtain h' where run: "cuda_launch (\<lambda>tid. combine_kernel f g tid a b c d) tids ?h1 = Inr h'"
    and others: "\<forall>x. x \<noteq> c \<and> x \<noteq> d \<longrightarrow> h' x = ?h1 x"
    and shp: "\<forall>x. shape0 (h' x) = shape0 (?h1 x) \<and> shape1 (h' x) = shape1 (?h1 x)"
    and cc: "\<forall>idx. cell (h' c) idx =
              (if idx \<in> set tids \<and> in_shape (?h1 a) idx
               then f (cell (?h1 a) idx) (cell (?h1 b) idx) else cell (?h1 c) idx)"
    and cd: "\<forall>idx. cell (h' d) idx =
              (if idx \<in> set tids \<and> in_shape (?h1 a) idx
               then g (cell (?h1 a) idx) (cell (?h1 b) idx) else cell (?h1 d) idx)"
    by blast
  have ins: "in_shape (?h1 a) idx = in_shape (h a) idx" for idx
    by (simp add: in_shape_def)
  have 1: "cuda_launch (\<lambda>tid. combine_kernel f g tid a b c d) (tid # tids) h = Inr h'"
    using step run by (simp add: bind_err_def)
  have 2: "\<forall>x. x \<noteq> c \<and> x \<noteq> d \<longrightarrow> h' x = h x"
    using others by simp
  have 3: "\<forall>x. shape0 (h' x) = shape0 (h x) \<and> shape1 (h' x) = shape1 (h x)"
    using shp sh by simp
  have 4: "cell (h' c) idx =
              (if idx \<in> set (tid # tids) \<and> in_shape (h a) idx
               then f (cell (h a) idx) (cell (h b) idx) else cell (h c) idx)" for idx
  proof (cases "idx \<in> set tids")
    case True
    then have "idx \<noteq> tid" using nin by auto
    then show ?thesis using cc [rule_format, of idx] True cl [of idx] ins by simp
  next
    case False
    then show ?thesis using cc [rule_format, of idx] ins \<open>c \<noteq> d\<close> by auto
  qed
  have 5: "cell (h' d) idx =
              (if idx \<in> set (tid # tids) \<and> in_shape (h a) idx
               then g (cell (h a) idx) (cell (h b) idx) else cell (h d) idx)" for idx
  proof (cases "idx \<in> set tids")
    case True
    then have "idx \<noteq> tid" using nin by auto
    then show ?thesis using cd [rule_format, of idx] True cl [of idx] ins by simp
  next
    case False
    then show ?thesis using cd [rule_format, of idx] ins \<open>c \<noteq> d\<close> by auto
  qed
  from 1 2 3 4 5 show ?case by blast
qed

lemma rt_pm_algebra:
  fixes r t :: complex
  shows "0.5 * (r - \<i> * t) + 0.5 * (r + \<i> * t) = r"
    and "\<i> * (0.5 * (r - \<i> * t) - 0.5 * (r + \<i> * t)) = t"
proof -
  show "0.5 * (r - \<i> * t) + 0.5 * (r + \<i> * t) = r" by (simp add: field_simps)
  have "\<i> * (0.5 * (r - \<i> * t) - 0.5 * (r + \<i> * t)) = - (\<i> * \<i>) * t"
    by (simp add: field_simps)
  then show "\<i> * (0.5 * (r - \<i> * t) - 0.5 * (r + \<i> * t)) = t" by simp
qed

lemma pm_rt_algebra:
  fixes p m :: complex
  shows "0.5 * ((p + m) - \<i> * (\<i> * (p - m))) = p"
    and "0.5 * ((p + m) + \<i> * (\<i> * (p - m))) = m"
proof -
  have ii: "\<i> * (\<i> * (p - m)) = - (p - m)"
    by (simp add: mult.assoc [symmetric])
  show "0.5 * ((p + m) - \<i> * (\<i> * (p - m))) = p" unfolding ii by simp
  show "0.5 * ((p + m) + \<i> * (\<i> * (p - m))) = m" unfolding ii by simp
qed

lemma rt_to_pm_launch:
  assumes "distinct tids" and "p \<noteq> m" and "fits h r t" and "fits h r p" and "fits h r m"
  shows "\<exists>h'. cuda_launch (\<lambda>tid. cuda_rt_to_pm tid r t p m) tids h = Inr h' \<and>
           (\<forall>x. x \<noteq> p \<and> x \<noteq> m \<longrightarrow> h' x = h x) \<and>
           (\<forall>x. shape0 (h' x) = shape0 (h x) \<and> shape1 (h' x) = shape1 (h x)) \<and>
           (\<forall>idx. cell (h' p) idx =
              (if idx \<in> set tids \<and> in_shape (h r) idx
               then 0.5 * (cell (h r) idx - \<i> * cell (h t) idx) else cell (h p) idx)) \<and>
           (\<forall>idx. cell (h' m) idx =
              (if idx \<in> set tids \<and> in_shape (h r) idx
               then 0.5 * (cell (h r) idx + \<i> * cell (h t) idx) else cell (h m) idx))"
proof -
  have eq: "(\<lambda>tid. cuda_rt_to_pm tid r t p m) =
        (\<lambda>tid. combine_kernel (\<lambda>x y. 0.5 * (x - \<i> * y)) (\<lambda>x y. 0.5 * (x + \<i> * y)) tid r t p m)"
    by (intro ext) (rule cuda_rt_to_pm_combine)
  show ?thesis unfolding eq
    by (rule combine_kernel_launch [OF assms,
          of "\<lambda>x y. 0.5 * (x - \<i> * y)" "\<lambda>x y. 0.5 * (x + \<i> * y)"])
qed

lemma pm_to_rt_launch:
  assumes "distinct tids" and "r \<noteq> t" and "fits h p m" and "fits h p r" and "fits h p t"
  shows "\<exists>h'. cuda_launch (\<lambda>tid. cuda_pm_to_rt tid p m r t) tids h = Inr h' \<and>
           (\<forall>x. x \<noteq> r \<and> x \<noteq> t \<longrightarrow> h' x = h x) \<and>
           (\<forall>x. shape0 (h' x) = shape0 (h x) \<and> shape1 (h' x) = shape1 (h x)) \<and>
           (\<forall>idx. cell (h' r) idx =
              (if idx \<in> set tids \<and> in_shape (h p) idx
               then cell (h p) idx + cell (h m) idx else cell (h r) idx)) \<and>
           (\<forall>idx. cell (h' t) idx =
              (if idx \<in> set tids \<and> in_shape (h p) idx
               then \<i> * (cell (h p) idx - cell (h m) idx) else cell (h t) idx))"
proof -
  have eq: "(\<lambda>tid. cuda_pm_to_rt tid p m r t) =
        (\<lambda>tid. combine_kernel (\<lambda>x y. x + y) (\<lambda>x y. \<i> * (x - y)) tid p m r t)"
    by (intro ext) (rule cuda_pm_to_rt_combine)
  show ?thesis unfolding eq
    by (rule combine_kernel_launch [OF assms, of "\<lambda>x y. x + y" "\<lambda>x y. \<i> * (x - y)"])
qed

lemma covers_in_shape:
  "covers tids (shape0 a) (shape1 a) \<Longrightarrow> in_shape a idx \<Longrightarrow> idx \<in> set tids"
  by (cases idx) (simp add: covers_def in_shape_def)

lemma rows_of_2x2:
  "shape0 a = 2 \<Longrightarrow> shape1 a = 2 \<Longrightarrow>
   rows_of a = [[cell a (0, 0), cell a (0, 1)], [cell a (1, 0), cell a (1, 1)]]"
  by (simp add: rows_of_def upt_rec numeral_2_eq_2)

lemma example_heap_shape: "shape0 (example_heap x) = 2" "shape1 (example_heap x) = 2"
  by (simp_all add: example_heap_def array_of_rows_def)

lemma example_heap_fits: "fits example_heap x y"
  by (simp add: fits_def example_heap_shape)

lemma example_threads:
  "distinct (grid_threads (1, 1) (8, 8))" "covers (grid_threads (1, 1) (8, 8)) 2 2"
  by (simp add: distinct_grid_threads) (rule covers_grid_threads, simp_all)


lemma example_heap_cells:
  "cell (example_heap 0) (0, 0) = 1" "cell (example_heap 0) (0, 1) = 2"
  "cell (example_heap 0) (1, 0) = 3" "cell (example_heap 0) (1, 1) = 4"
  "cell (example_heap 1) (0, 0) = 0" "cell (example_heap 1) (0, 1) = 0"
  "cell (example_heap 1) (1, 0) = 0" "cell (example_heap 1) (1, 1) = 0"
  by (simp_all add: example_heap_def array_of_rows_def del: One_nat_def)

lemma example_basis_change:
  "\<exists>h1 h2.
     cuda_launch (\<lambda>tid. cuda_rt_to_pm tid 0 1 2 3) (grid_threads (1, 1) (8, 8)) example_heap =
       Inr h1 \<and>
     rows_of (h1 2) = [[0.5, 1], [1.5, 2]] \<and> rows_of (h1 3) = [[0.5, 1], [1.5, 2]] \<and>
     cuda_launch (\<lambda>tid. cuda_pm_to_rt tid 2 3 4 5) (grid_threads (1, 1) (8, 8)) h1 = Inr h2 \<and>
     rows_of (h2 4) = [[1, 2], [3, 4]] \<and> rows_of (h2 5) = [[0, 0], [0, 0]]"
proof -
  let ?ths = "grid_threads (1, 1) (8, 8)"
  have ne: "(2::nat) \<noteq> 3" "(4::nat) \<noteq> 5" by simp_all
  have mem: "idx \<in> set ?ths" if "in_shape (example_heap 0) idx" for idx
    using example_threads(2) that by (intro covers_in_shape [of _ "example_heap 0"])
      (simp_all add: example_heap_shape)
  from rt_to_pm_launch [OF example_threads(1) ne(1) example_heap_fits example_heap_fits
      example_heap_fits, of 0 1]
  obtain h1 where run1: "cuda_launch (\<lambda>tid. cuda_rt_to_pm tid 0 1 2 3) ?ths example_heap = Inr h1"
    and sh1: "\<And>x. shape0 (h1 x) = 2 \<and> shape1 (h1 x) = 2"
    and p1: "\<And>idx. in_shape (example_heap 0) idx \<Longrightarrow>
               cell (h1 2) idx = 0.5 * (cell (example_heap 0) idx - \<i> * cell (example_heap 1) idx)"
    and m1: "\<And>idx. in_shape (example_heap 0) idx \<Longrightarrow>
               cell (h1 3) idx = 0.5 * (cell (example_heap 0) idx + \<i> * cell (example_heap 1) idx)"
    using mem by (auto simp: example_heap_shape)
  have ins: "in_shape (example_heap 0) (0, 0)" "in_shape (example_heap 0) (0, 1)"
    "in_shape (example_heap 0) (1, 0)" "in_shape (example_heap 0) (1, 1)"
    by (simp_all add: in_shape_def example_heap_shape)
  have pc: "cell (h1 2) (0, 0) = 0.5" "cell (h1 2) (0, 1) = 1"
    "cell (h1 2) (1, 0) = 1.5" "cell (h1 2) (1, 1) = 2"
    by (simp_all add: p1 ins example_heap_cells del: One_nat_def)
  have mc: "cell (h1 3) (0, 0) = 0.5" "cell (h1 3) (0, 1) = 1"
    "cell (h1 3) (1, 0) = 1.5" "cell (h1 3) (1, 1) = 2"
    by (simp_all add: m1 ins example_heap_cells del: One_nat_def)
  have rp: "rows_of (h1 2) = [[0.5, 1], [1.5, 2]]" and rm: "rows_of (h1 3) = [[0.5, 1], [1.5, 2]]"
    by (simp_all add: rows_of_2x2 sh1 pc mc del: One_nat_def)
  have f1: "fits h1 x y" for x y by (simp add: fits_def sh1)
  have ins1: "in_shape (h1 2) idx = in_shape (example_heap 0) idx" for idx
    by (simp add: in_shape_def sh1 example_heap_shape)
  from pm_to_rt_launch [OF example_threads(1) ne(2) f1 f1 f1, of 2 3]
  obtain h2 where run2: "cuda_launch (\<lambda>tid. cuda_pm_to_rt tid 2 3 4 5) ?ths h1 = Inr h2"
    and sh2: "\<And>x. shape0 (h2 x) = 2 \<and> shape1 (h2 x) = 2"
    and r2: "\<And>idx. in_shape (example_heap 0) idx \<Longrightarrow>
               cell (h2 4) idx = cell (h1 2) idx + cell (h1 3) idx"
    and t2: "\<And>idx. in_shape (example_heap 0) idx \<Longrightarrow>
               cell (h2 5) idx = \<i> * (cell (h1 2) idx - cell (h1 3) idx)"
    using mem by (auto simp: sh1 ins1)
  have rr: "rows_of (h2 4) = [[1, 2], [3, 4]]" and rt: "rows_of (h2 5) = [[0, 0], [0, 0]]"
    by (simp_all add: rows_of_2x2 sh2 r2 t2 ins pc mc del: One_nat_def)
  from run1 rp rm run2 rr rt show ?thesis by blast
qed

text \<open>
  Claim C9 (the forward formulas). Let \<open>buffer_r\<close> have shape \<open>Nz \<times> Nr\<close> and let \<open>buffer_t\<close>,
  \<open>buffer_p\<close>, \<open>buffer_m\<close> be declared at least that large (in particular, of the same shape),
  the two outputs being two different buffers, each of which may be one of the inputs.
  A launch of \<open>cuda_rt_to_pm\<close> that runs every thread once and covers the grid completes,
  with \<open>p[iz, ir] = 0.5 * (r[iz, ir] - \<i> * t[iz, ir])\<close> and
  \<open>m[iz, ir] = 0.5 * (r[iz, ir] + \<i> * t[iz, ir])\<close> at every valid position, \<open>r\<close> and \<open>t\<close> read
  before the launch. For \<open>r = [[1, 2], [3, 4]]\<close> and \<open>t = 0\<close> (buffers 0 and 1 of
  \<open>example_heap\<close>) both \<open>p\<close> and \<open>m\<close> are \<open>[[0.5, 1], [1.5, 2]]\<close>, and \<open>cuda_pm_to_rt\<close> applied to
  them gives back \<open>[[1, 2], [3, 4]]\<close> and the zero grid.
\<close>

theorem rt_to_pm_values:
  assumes "distinct tids" and "covers tids (shape0 (h buffer_r)) (shape1 (h buffer_r))"
    and "buffer_p \<noteq> buffer_m"
    and "fits h buffer_r buffer_t" and "fits h buffer_r buffer_p" and "fits h buffer_r buffer_m"
  shows "(\<exists>h'. cuda_launch (\<lambda>tid. cuda_rt_to_pm tid buffer_r buffer_t buffer_p buffer_m) tids h =
              Inr h' \<and>
            (\<forall>iz < shape0 (h buffer_r). \<forall>ir < shape1 (h buffer_r).
               cell (h' buffer_p) (iz, ir) =
                 0.5 * (cell (h buffer_r) (iz, ir) - \<i> * cell (h buffer_t) (iz, ir)) \<and>
               cell (h' buffer_m) (iz, ir) =
                 0.5 * (cell (h buffer_r) (iz, ir) + \<i> * cell (h buffer_t) (iz, ir)))) \<and>
         (\<exists>h1 h2.
            cuda_launch (\<lambda>tid. cuda_rt_to_pm tid 0 1 2 3) (grid_threads (1, 1) (8, 8))
              example_heap = Inr h1 \<and>
            rows_of (h1 2) = [[0.5, 1], [1.5, 2]] \<and> rows_of (h1 3) = [[0.5, 1], [1.5, 2]] \<and>
            cuda_launch (\<lambda>tid. cuda_pm_to_rt tid 2 3 4 5) (grid_threads (1, 1) (8, 8)) h1 =
              Inr h2 \<and>
            rows_of (h2 4) = [[1, 2], [3, 4]] \<and> rows_of (h2 5) = [[0, 0], [0, 0]])"
proof -
  from rt_to_pm_launch [OF assms(1,3,4,5,6)]
  obtain h' where run: "cuda_launch (\<lambda>tid. cuda_rt_to_pm tid buffer_r buffer_t buffer_p buffer_m) tids h = Inr h'"
    and cp: "\<forall>idx. cell (h' buffer_p) idx =
              (if idx \<in> set tids \<and> in_shape (h buffer_r) idx
               then 0.5 * (cell (h buffer_r) idx - \<i> * cell (h buffer_t) idx)
               else cell (h buffer_p) idx)"
    and cm: "\<forall>idx. cell (h' buffer_m) idx =
              (if idx \<in> set tids \<and> in_shape (h buffer_r) idx
               then 0.5 * (cell (h buffer_r) idx + \<i> * cell (h buffer_t) idx)
               else cell (h buffer_m) idx)"
    by blast
  have "cell (h' buffer_p) (iz, ir) =
          0.5 * (cell (h buffer_r) (iz, ir) - \<i> * cell (h buffer_t) (iz, ir)) \<and>
        cell (h' buffer_m) (iz, ir) =
          0.5 * (cell (h buffer_r) (iz, ir) + \<i> * cell (h buffer_t) (iz, ir))"
    if "iz < shape0 (h buffer_r)" "ir < shape1 (h buffer_r)" for iz ir
  proof -
    have i: "in_shape (h buffer_r) (iz, ir)" using that by (simp add: in_shape_def)
    then have "(iz, ir) \<in> set tids" using assms(2) by (rule covers_in_shape [rotated])
    with i cp cm show ?thesis by simp
  qed
  with run example_basis_change show ?thesis by blast
qed

theorem rt_to_pm_values_witness:
  "\<exists>h'. cuda_launch (\<lambda>tid. cuda_rt_to_pm tid 0 1 0 1) (grid_threads (1, 1) (8, 8)) example_heap =
      Inr h' \<and>
     cell (h' 0) (1, 0) = 1.5 \<and> cell (h' 1) (1, 0) = 1.5"
proof -
  have ne: "(0::nat) \<noteq> 1" by simp
  have c: "covers (grid_threads (1, 1) (8, 8)) (shape0 (example_heap 0)) (shape1 (example_heap 0))"
    using example_threads(2) by (simp add: example_heap_shape)
  from rt_to_pm_values [OF example_threads(1) c ne example_heap_fits example_heap_fits
      example_heap_fits]
  obtain h' where "cuda_launch (\<lambda>tid. cuda_rt_to_pm tid 0 1 0 1) (grid_threads (1, 1) (8, 8))
        example_heap = Inr h'"
    and "\<forall>iz < shape0 (example_heap 0). \<forall>ir < shape1 (example_heap 0).
               cell (h' 0) (iz, ir) =
                 0.5 * (cell (example_heap 0) (iz, ir) - \<i> * cell (example_heap 1) (iz, ir)) \<and>
               cell (h' 1) (iz, ir) =
                 0.5 * (cell (example_heap 0) (iz, ir) + \<i> * cell (example_heap 1) (iz, ir))"
    by blast
  then show ?thesis
    by (intro exI [of _ h']) (simp add: example_heap_shape example_heap_cells del: One_nat_def)
qed

text \<open>
  Claim C1 (round trip of the change of basis). Let the six buffers involved have the
  shape \<open>Nz \<times> Nr\<close>; the pair written by the first kernel and the pair written by the
  second are each two different buffers, and any of them may be one of the buffers read
  (in particular both kernels may work in place). Under launches that run every thread
  once and cover the grid, \<open>cuda_rt_to_pm\<close> followed by \<open>cuda_pm_to_rt\<close> completes and ends
  with the original \<open>(r, t)\<close> in the final pair, at every position of the grid; likewise
  \<open>cuda_pm_to_rt\<close> followed by \<open>cuda_rt_to_pm\<close> ends with the original \<open>(p, m)\<close>.
\<close>

theorem basis_round_trip:
  assumes d1: "distinct tids1" and d2: "distinct tids2"
    and c1: "covers tids1 Nz Nr" and c2: "covers tids2 Nz Nr"
    and sh: "\<And>x. x \<in> {in1, in2, mid1, mid2, out1, out2} \<Longrightarrow>
               shape0 (h x) = Nz \<and> shape1 (h x) = Nr"
    and mid: "mid1 \<noteq> mid2" and out: "out1 \<noteq> out2"
  shows "(\<exists>h1 h2.
            cuda_launch (\<lambda>tid. cuda_rt_to_pm tid in1 in2 mid1 mid2) tids1 h = Inr h1 \<and>
            cuda_launch (\<lambda>tid. cuda_pm_to_rt tid mid1 mid2 out1 out2) tids2 h1 = Inr h2 \<and>
            (\<forall>iz < Nz. \<forall>ir < Nr.
               cell (h2 out1) (iz, ir) = cell (h in1) (iz, ir) \<and>
               cell (h2 out2) (iz, ir) = cell (h in2) (iz, ir))) \<and>
         (\<exists>h1 h2.
            cuda_launch (\<lambda>tid. cuda_pm_to_rt tid in1 in2 mid1 mid2) tids1 h = Inr h1 \<and>
            cuda_launch (\<lambda>tid. cuda_rt_to_pm tid mid1 mid2 out1 out2) tids2 h1 = Inr h2 \<and>
            (\<forall>iz < Nz. \<forall>ir < Nr.
               cell (h2 out1) (iz, ir) = cell (h in1) (iz, ir) \<and>
               cell (h2 out2) (iz, ir) = cell (h in2) (iz, ir)))"
proof -
  have f: "fits h in1 in2" "fits h in1 mid1" "fits h in1 mid2"
    using sh by (simp_all add: fits_def)
  have ins: "in_shape (h in1) (iz, ir)" if "iz < Nz" "ir < Nr" for iz ir
    using that sh [of in1] by (simp add: in_shape_def)
  have m1: "(iz, ir) \<in> set tids1" and m2: "(iz, ir) \<in> set tids2" if "iz < Nz" "ir < Nr" for iz ir
    using that c1 c2 by (simp_all add: covers_def)
  have shape_after: "fits h1 mid1 mid2 \<and> fits h1 mid1 out1 \<and> fits h1 mid1 out2 \<and>
      (\<forall>iz ir. iz < Nz \<longrightarrow> ir < Nr \<longrightarrow> in_shape (h1 mid1) (iz, ir))"
    if "\<forall>x. shape0 (h1 x) = shape0 (h x) \<and> shape1 (h1 x) = shape1 (h x)" for h1
    using that sh by (simp add: fits_def in_shape_def)
  have fwd: "\<exists>h1 h2.
            cuda_launch (\<lambda>tid. cuda_rt_to_pm tid in1 in2 mid1 mid2) tids1 h = Inr h1 \<and>
            cuda_launch (\<lambda>tid. cuda_pm_to_rt tid mid1 mid2 out1 out2) tids2 h1 = Inr h2 \<and>
            (\<forall>iz < Nz. \<forall>ir < Nr.
               cell (h2 out1) (iz, ir) = cell (h in1) (iz, ir) \<and>
               cell (h2 out2) (iz, ir) = cell (h in2) (iz, ir))"
  proof -
    from rt_to_pm_launch [OF d1 mid f]
    obtain h1 where run1: "cuda_launch (\<lambda>tid. cuda_rt_to_pm tid in1 in2 mid1 mid2) tids1 h = Inr h1"
      and sh1: "\<forall>x. shape0 (h1 x) = shape0 (h x) \<and> shape1 (h1 x) = shape1 (h x)"
      and p: "\<forall>idx. cell (h1 mid1) idx =
              (if idx \<in> set tids1 \<and> in_shape (h in1) idx
               then 0.5 * (cell (h in1) idx - \<i> * cell (h in2) idx) else cell (h mid1) idx)"
      and m: "\<forall>idx. cell (h1 mid2) idx =
              (if idx \<in> set tids1 \<and> in_shape (h in1) idx
               then 0.5 * (cell (h in1) idx + \<i> * cell (h in2) idx) else cell (h mid2) idx)"
      by blast
    note s1 = shape_after [OF sh1]
    from pm_to_rt_launch [OF d2 out s1 [THEN conjunct1] s1 [THEN conjunct2, THEN conjunct1]
        s1 [THEN conjunct2, THEN conjunct2, THEN conjunct1]]
    obtain h2 where run2: "cuda_launch (\<lambda>tid. cuda_pm_to_rt tid mid1 mid2 out1 out2) tids2 h1 = Inr h2"
      and r: "\<forall>idx. cell (h2 out1) idx =
              (if idx \<in> set tids2 \<and> in_shape (h1 mid1) idx
               then cell (h1 mid1) idx + cell (h1 mid2) idx else cell (h1 out1) idx)"
      and t: "\<forall>idx. cell (h2 out2) idx =
              (if idx \<in> set tids2 \<and> in_shape (h1 mid1) idx
               then \<i> * (cell (h1 mid1) idx - cell (h1 mid2) idx) else cell (h1 out2) idx)"
      by blast
    have "cell (h2 out1) (iz, ir) = cell (h in1) (iz, ir) \<and>
          cell (h2 out2) (iz, ir) = cell (h in2) (iz, ir)" if "iz < Nz" "ir < Nr" for iz ir
    proof -
      have a: "in_shape (h1 mid1) (iz, ir)" using s1 that by blast
      have "cell (h2 out1) (iz, ir) = cell (h1 mid1) (iz, ir) + cell (h1 mid2) (iz, ir)"
        using r a m2 [OF that] by simp
      moreover have "cell (h2 out2) (iz, ir) =
          \<i> * (cell (h1 mid1) (iz, ir) - cell (h1 mid2) (iz, ir))"
        using t a m2 [OF that] by simp
      moreover have "cell (h1 mid1) (iz, ir) =
          0.5 * (cell (h in1) (iz, ir) - \<i> * cell (h in2) (iz, ir))"
        using p ins [OF that] m1 [OF that] by simp
      moreover have "cell (h1 mid2) (iz, ir) =
          0.5 * (cell (h in1) (iz, ir) + \<i> * cell (h in2) (iz, ir))"
        using m ins [OF that] m1 [OF that] by simp
      ultimately show ?thesis by (simp only: rt_pm_algebra)
    qed
    with run1 run2 show ?thesis by blast
  qed
  have bwd: "\<exists>h1 h2.
            cuda_launch (\<lambda>tid. cuda_pm_to_rt tid in1 in2 mid1 mid2) tids1 h = Inr h1 \<and>
            cuda_launch (\<lambda>tid. cuda_rt_to_pm tid mid1 mid2 out1 out2) tids2 h1 = Inr h2 \<and>
            (\<forall>iz < Nz. \<forall>ir < Nr.
               cell (h2 out1) (iz, ir) = cell (h in1) (iz, ir) \<and>
               cell (h2 out2) (iz, ir) = cell (h in2) (iz, ir))"
  proof -
    from pm_to_rt_launch [OF d1 mid f]
    obtain h1 where run1: "cuda_launch (\<lambda>tid. cuda_pm_to_rt tid in1 in2 mid1 mid2) tids1 h = Inr h1"
      and sh1: "\<forall>x. shape0 (h1 x) = shape0 (h x) \<and> shape1 (h1 x) = shape1 (h x)"
      and r: "\<forall>idx. cell (h1 mid1) idx =
              (if idx \<in> set tids1 \<and> in_shape (h in1) idx
               then cell (h in1) idx + cell (h in2) idx else cell (h mid1) idx)"
      and t: "\<forall>idx. cell (h1 mid2) idx =
              (if idx \<in> set tids1 \<and> in_shape (h in1) idx
               then \<i> * (cell (h in1) idx - cell (h in2) idx) else cell (h mid2) idx)"
      by blast
    note s1 = shape_after [OF sh1]
    from rt_to_pm_launch [OF d2 out s1 [THEN conjunct1] s1 [THEN conjunct2, THEN conjunct1]
        s1 [THEN conjunct2, THEN conjunct2, THEN conjunct1]]
    obtain h2 where run2: "cuda_launch (\<lambda>tid. cuda_rt_to_pm tid mid1 mid2 out1 out2) tids2 h1 = Inr h2"
      and p: "\<forall>idx. cell (h2 out1) idx =
              (if idx \<in> set tids2 \<and> in_shape (h1 mid1) idx
               then 0.5 * (cell (h1 mid1) idx - \<i> * cell (h1 mid2) idx) else cell (h1 out1) idx)"
      and m: "\<forall>idx. cell (h2 out2) idx =
              (if idx \<in> set tids2 \<and> in_shape (h1 mid1) idx
               then 0.5 * (cell (h1 mid1) idx + \<i> * cell (h1 mid2) idx) else cell (h1 out2) idx)"
      by blast
    have "cell (h2 out1) (iz, ir) = cell (h in1) (iz, ir) \<and>
          cell (h2 out2) (iz, ir) = cell (h in2) (iz, ir)" if "iz < Nz" "ir < Nr" for iz ir
    proof -
      have a: "in_shape (h1 mid1) (iz, ir)" using s1 that by blast
      have "cell (h2 out1) (iz, ir) =
          0.5 * (cell (h1 mid1) (iz, ir) - \<i> * cell (h1 mid2) (iz, ir))"
        using p a m2 [OF that] by simp
      moreover have "cell (h2 out2) (iz, ir) =
          0.5 * (cell (h1 mid1) (iz, ir) + \<i> * cell (h1 mid2) (iz, ir))"
        using m a m2 [OF that] by simp
      moreover have "cell (h1 mid1) (iz, ir) = cell (h in1) (iz, ir) + cell (h in2) (iz, ir)"
        using r ins [OF that] m1 [OF that] by simp
      moreover have "cell (h1 mid2) (iz, ir) =
          \<i> * (cell (h in1) (iz, ir) - cell (h in2) (iz, ir))"
        using t ins [OF that] m1 [OF that] by simp
      ultimately show ?thesis by (simp only: pm_rt_algebra)
    qed
    with run1 run2 show ?thesis by blast
  qed
  from fwd bwd show ?thesis by (rule conjI)
qed

theorem basis_round_trip_witness:
  "\<exists>h1 h2.
     cuda_launch (\<lambda>tid. cuda_rt_to_pm tid 0 1 0 1) (grid_threads (1, 1) (8, 8)) example_heap =
       Inr h1 \<and>
     cuda_launch (\<lambda>tid. cuda_pm_to_rt tid 0 1 0 1) (grid_threads (1, 1) (8, 8)) h1 = Inr h2 \<and>
     cell (h2 0) (1, 0) = 3 \<and> cell (h2 0) (1, 1) = 4 \<and> cell (h2 1) (1, 0) = 0"
proof -
  have ne: "(0::nat) \<noteq> 1" by simp
  have sh: "shape0 (example_heap x) = 2 \<and> shape1 (example_heap x) = 2" for x
    by (simp add: example_heap_shape)
  have "\<exists>h1 h2.
     cuda_launch (\<lambda>tid. cuda_rt_to_pm tid 0 1 0 1) (grid_threads (1, 1) (8, 8)) example_heap =
       Inr h1 \<and>
     cuda_launch (\<lambda>tid. cuda_pm_to_rt tid 0 1 0 1) (grid_threads (1, 1) (8, 8)) h1 = Inr h2 \<and>
     (\<forall>iz < 2. \<forall>ir < 2.
       cell (h2 0) (iz, ir) = cell (example_heap 0) (iz, ir) \<and>
       cell (h2 1) (iz, ir) = cell (example_heap 1) (iz, ir))"
    by (rule basis_round_trip [where h = example_heap and Nz = 2 and Nr = 2
          and ?in1.0 = 0 and ?in2.0 = 1 and ?mid1.0 = 0 and ?mid2.0 = 1 and ?out1.0 = 0
          and ?out2.0 = 1,
          THEN conjunct1])
      (rule example_threads sh ne)+
  then obtain h1 h2 where
    1: "cuda_launch (\<lambda>tid. cuda_rt_to_pm tid 0 1 0 1) (grid_threads (1, 1) (8, 8)) example_heap =
       Inr h1"
    and 2: "cuda_launch (\<lambda>tid. cuda_pm_to_rt tid 0 1 0 1) (grid_threads (1, 1) (8, 8)) h1 = Inr h2"
    and 3: "\<And>iz ir. iz < 2 \<Longrightarrow> ir < 2 \<Longrightarrow>
       cell (h2 0) (iz, ir) = cell (example_heap 0) (iz, ir) \<and>
       cell (h2 1) (iz, ir) = cell (example_heap 1) (iz, ir)"
    by blast
  have "cell (h2 0) (1, 0) = 3" "cell (h2 0) (1, 1) = 4" "cell (h2 1) (1, 0) = 0"
    using 3 [of 1 0] 3 [of 1 1] by (simp_all add: example_heap_cells del: One_nat_def)
  with 1 2 show ?thesis by blast
qed

lemma combine_kernel_alias:
  assumes d: "distinct tids" and d0: "distinct tids0"
    and c: "covers tids (shape0 (h a)) (shape1 (h a))"
    and c0: "covers tids0 (shape0 (h a)) (shape1 (h a))"
    and o: "out1 \<noteq> out2" and fr: "fresh1 \<noteq> fresh2"
    and f: "fits h a b" "fits h a out1" "fits h a out2" "fits h a fresh1" "fits h a fresh2"
  shows "\<exists>ha hd.
           cuda_launch (\<lambda>tid. combine_kernel F G tid a b out1 out2) tids h = Inr ha \<and>
           cuda_launch (\<lambda>tid. combine_kernel F G tid a b fresh1 fresh2) tids0 h = Inr hd \<and>
           (\<forall>iz < shape0 (h a). \<forall>ir < shape1 (h a).
              cell (ha out1) (iz, ir) = cell (hd fresh1) (iz, ir) \<and>
              cell (ha out2) (iz, ir) = cell (hd fresh2) (iz, ir))"
proof -
  from combine_kernel_launch [OF d o f(1,2,3), of F G]
  obtain ha where runa: "cuda_launch (\<lambda>tid. combine_kernel F G tid a b out1 out2) tids h = Inr ha"
    and a1: "\<forall>idx. cell (ha out1) idx =
              (if idx \<in> set tids \<and> in_shape (h a) idx
               then F (cell (h a) idx) (cell (h b) idx) else cell (h out1) idx)"
    and a2: "\<forall>idx. cell (ha out2) idx =
              (if idx \<in> set tids \<and> in_shape (h a) idx
               then G (cell (h a) idx) (cell (h b) idx) else cell (h out2) idx)"
    by blast
  from combine_kernel_launch [OF d0 fr f(1,4,5), of F G]
  obtain hd where rund: "cuda_launch (\<lambda>tid. combine_kernel F G tid a b fresh1 fresh2) tids0 h = Inr hd"
    and b1: "\<forall>idx. cell (hd fresh1) idx =
              (if idx \<in> set tids0 \<and> in_shape (h a) idx
               then F (cell (h a) idx) (cell (h b) idx) else cell (h fresh1) idx)"
    and b2: "\<forall>idx. cell (hd fresh2) idx =
              (if idx \<in> set tids0 \<and> in_shape (h a) idx
               then G (cell (h a) idx) (cell (h b) idx) else cell (h fresh2) idx)"
    by blast
  have "cell (ha out1) (iz, ir) = cell (hd fresh1) (iz, ir) \<and>
        cell (ha out2) (iz, ir) = cell (hd fresh2) (iz, ir)"
    if "iz < shape0 (h a)" "ir < shape1 (h a)" for iz ir
  proof -
    have i: "in_shape (h a) (iz, ir)" using that by (simp add: in_shape_def)
    have "(iz, ir) \<in> set tids" "(iz, ir) \<in> set tids0"
      using c c0 i by (auto intro: covers_in_shape)
    with i a1 a2 b1 b2 show ?thesis by simp
  qed
  with runa rund show ?thesis by blast
qed

text \<open>
  Claim C2 (aliasing safety). Call the kernel once with outputs \<open>out1\<close>, \<open>out2\<close>, each of
  which may be the same buffer as either input, and once with outputs \<open>fresh1\<close>, \<open>fresh2\<close>
  that are different from both inputs and from each other. In both calls the two
  outputs are two buffers (one buffer cannot hold both results). Then both launches
  complete, under any two schedules that run every thread once and cover the grid, and
  at every position of the grid the aliased call leaves in \<open>out1\<close>, \<open>out2\<close> the values that
  the call on distinct storage leaves in \<open>fresh1\<close>, \<open>fresh2\<close>. This holds for
  \<open>cuda_rt_to_pm\<close> and for \<open>cuda_pm_to_rt\<close>.
\<close>

theorem aliasing_safe:
  assumes "distinct tids" and "distinct tids0"
    and "covers tids (shape0 (h in1)) (shape1 (h in1))"
    and "covers tids0 (shape0 (h in1)) (shape1 (h in1))"
    and "out1 \<noteq> out2"
    and "fresh1 \<noteq> fresh2" and "fresh1 \<notin> {in1, in2}" and "fresh2 \<notin> {in1, in2}"
    and "fits h in1 in2" and "fits h in1 out1" and "fits h in1 out2"
    and "fits h in1 fresh1" and "fits h in1 fresh2"
  shows "(\<exists>ha hd.
            cuda_launch (\<lambda>tid. cuda_rt_to_pm tid in1 in2 out1 out2) tids h = Inr ha \<and>
            cuda_launch (\<lambda>tid. cuda_rt_to_pm tid in1 in2 fresh1 fresh2) tids0 h = Inr hd \<and>
            (\<forall>iz < shape0 (h in1). \<forall>ir < shape1 (h in1).
               cell (ha out1) (iz, ir) = cell (hd fresh1) (iz, ir) \<and>
               cell (ha out2) (iz, ir) = cell (hd fresh2) (iz, ir))) \<and>
         (\<exists>ha hd.
            cuda_launch (\<lambda>tid. cuda_pm_to_rt tid in1 in2 out1 out2) tids h = Inr ha \<and>
            cuda_launch (\<lambda>tid. cuda_pm_to_rt tid in1 in2 fresh1 fresh2) tids0 h = Inr hd \<and>
            (\<forall>iz < shape0 (h in1). \<forall>ir < shape1 (h in1).
               cell (ha out1) (iz, ir) = cell (hd fresh1) (iz, ir) \<and>
               cell (ha out2) (iz, ir) = cell (hd fresh2) (iz, ir)))"
proof -
  have e1: "(\<lambda>tid. cuda_rt_to_pm tid in1 in2 x y) =
        (\<lambda>tid. combine_kernel (\<lambda>x y. 0.5 * (x - \<i> * y)) (\<lambda>x y. 0.5 * (x + \<i> * y)) tid in1 in2 x y)"
    for x y by (intro ext) (rule cuda_rt_to_pm_combine)
  have e2: "(\<lambda>tid. cuda_pm_to_rt tid in1 in2 x y) =
        (\<lambda>tid. combine_kernel (\<lambda>x y. x + y) (\<lambda>x y. \<i> * (x - y)) tid in1 in2 x y)"
    for x y by (intro ext) (rule cuda_pm_to_rt_combine)
  show ?thesis unfolding e1 e2
    by (intro conjI combine_kernel_alias assms)
qed

theorem aliasing_safe_witness:
  "\<exists>ha hd.
     cuda_launch (\<lambda>tid. cuda_rt_to_pm tid 0 1 0 1) (grid_threads (1, 1) (8, 8)) example_heap =
       Inr ha \<and>
     cuda_launch (\<lambda>tid. cuda_rt_to_pm tid 0 1 2 3) (rev (grid_threads (1, 1) (8, 8)))
       example_heap = Inr hd \<and>
     cell (ha 0) (1, 0) = cell (hd 2) (1, 0) \<and> cell (ha 1) (1, 0) = cell (hd 3) (1, 0) \<and>
     cell (ha 0) (1, 1) = cell (hd 2) (1, 1) \<and> cell (ha 1) (1, 1) = cell (hd 3) (1, 1)"
proof -
  have ne: "(0::nat) \<noteq> 1" "(2::nat) \<noteq> 3" "(2::nat) \<notin> {0, 1}" "(3::nat) \<notin> {0, 1}" by simp_all
  have c: "covers (grid_threads (1, 1) (8, 8)) (shape0 (example_heap 0)) (shape1 (example_heap 0))"
    using example_threads(2) by (simp add: example_heap_shape)
  have d0: "distinct (rev (grid_threads (1, 1) (8, 8)))"
    using example_threads(1) by simp
  have c0: "covers (rev (grid_threads (1, 1) (8, 8))) (shape0 (example_heap 0))
      (shape1 (example_heap 0))"
    using c by (simp add: covers_def)
  have "\<exists>ha hd.
     cuda_launch (\<lambda>tid. cuda_rt_to_pm tid 0 1 0 1) (grid_threads (1, 1) (8, 8)) example_heap =
       Inr ha \<and>
     cuda_launch (\<lambda>tid. cuda_rt_to_pm tid 0 1 2 3) (rev (grid_threads (1, 1) (8, 8)))
       example_heap = Inr hd \<and>
     (\<forall>iz < shape0 (example_heap 0). \<forall>ir < shape1 (example_heap 0).
       cell (ha 0) (iz, ir) = cell (hd 2) (iz, ir) \<and> cell (ha 1) (iz, ir) = cell (hd 3) (iz, ir))"
    by (rule aliasing_safe [where h = example_heap and ?in1.0 = 0 and ?in2.0 = 1
          and ?out1.0 = 0 and ?out2.0 = 1 and ?fresh1.0 = 2 and ?fresh2.0 = 3,
          THEN conjunct1])
      (rule example_threads d0 c c0 ne example_heap_fits)+
  then obtain ha hd where
    1: "cuda_launch (\<lambda>tid. cuda_rt_to_pm tid 0 1 0 1) (grid_threads (1, 1) (8, 8)) example_heap =
       Inr ha"
    and 2: "cuda_launch (\<lambda>tid. cuda_rt_to_pm tid 0 1 2 3) (rev (grid_threads (1, 1) (8, 8)))
       example_heap = Inr hd"
    and 3: "\<And>iz ir. iz < 2 \<Longrightarrow> ir < 2 \<Longrightarrow>
       cell (ha 0) (iz, ir) = cell (hd 2) (iz, ir) \<and> cell (ha 1) (iz, ir) = cell (hd 3) (iz, ir)"
    unfolding example_heap_shape by blast
  have "cell (ha 0) (1, 0) = cell (hd 2) (1, 0)" "cell (ha 1) (1, 0) = cell (hd 3) (1, 0)"
    "cell (ha 0) (1, 1) = cell (hd 2) (1, 1)" "cell (ha 1) (1, 1) = cell (hd 3) (1, 1)"
    using 3 [of 1 0] 3 [of 1 1] by simp_all
  with 1 2 show ?thesis by blast
qed

section \<open>What the kernels leave unchanged\<close>

lemma copy_2d_to_2d_frame:
  assumes "cuda_launch (\<lambda>tid. cuda_copy_2d_to_2d tid a) tids out0 = Inr out"
  shows "shape0 out = shape0 out0 \<and> shape1 out = shape1 out0 \<and>
         (\<forall>idx. \<not> in_shape a idx \<longrightarrow> cell out idx = cell out0 idx)"
proof (rule cuda_launch_preserves [OF assms, where R = "\<lambda>s s'.
    shape0 s' = shape0 s \<and> shape1 s' = shape1 s \<and>
    (\<forall>idx. \<not> in_shape a idx \<longrightarrow> cell s' idx = cell s idx)"])
  fix tid s1 s2 assume "cuda_copy_2d_to_2d tid a s1 = Inr s2"
  then show "shape0 s2 = shape0 s1 \<and> shape1 s2 = shape1 s1 \<and>
         (\<forall>idx. \<not> in_shape a idx \<longrightarrow> cell s2 idx = cell s1 idx)"
    by (auto simp: copy_2d_to_2d_step split: if_splits)
qed auto

lemma copy_2d_to_1d_frame:
  assumes "cuda_launch (\<lambda>tid. cuda_copy_2d_to_1d tid g) tids buf = Inr out"
  shows "length out = length buf \<and> (\<forall>i. shape0 g * shape1 g \<le> i \<longrightarrow> out ! i = buf ! i)"
proof (rule cuda_launch_preserves [OF assms, where R = "\<lambda>s s'.
    length s' = length s \<and> (\<forall>i. shape0 g * shape1 g \<le> i \<longrightarrow> s' ! i = s ! i)"])
  fix tid s1 s2 assume a: "cuda_copy_2d_to_1d tid g s1 = Inr s2"
  show "length s2 = length s1 \<and> (\<forall>i. shape0 g * shape1 g \<le> i \<longrightarrow> s2 ! i = s1 ! i)"
  proof (cases "in_shape g tid")
    case False
    with a show ?thesis by (simp add: copy_2d_to_1d_step)
  next
    case True
    then have "fst tid + shape0 g * snd tid < shape0 g * shape1 g"
      by (simp add: in_shape_def flat_index_less)
    with a True show ?thesis by (auto simp: copy_2d_to_1d_step split: if_splits)
  qed
qed auto

lemma copy_1d_to_2d_frame:
  assumes "cuda_launch (\<lambda>tid. cuda_copy_1d_to_2d tid flat) tids a = Inr out"
  shows "shape0 out = shape0 a \<and> shape1 out = shape1 a \<and>
         (\<forall>idx. \<not> in_shape a idx \<longrightarrow> cell out idx = cell a idx)"
proof (rule cuda_launch_preserves [OF assms, where R = "\<lambda>s s'.
    shape0 s' = shape0 s \<and> shape1 s' = shape1 s \<and>
    (\<forall>idx. \<not> in_shape s idx \<longrightarrow> cell s' idx = cell s idx)"])
  fix tid s1 s2 assume "cuda_copy_1d_to_2d tid flat s1 = Inr s2"
  then show "shape0 s2 = shape0 s1 \<and> shape1 s2 = shape1 s1 \<and>
         (\<forall>idx. \<not> in_shape s1 idx \<longrightarrow> cell s2 idx = cell s1 idx)"
    by (auto simp: copy_1d_to_2d_step split: if_splits)
next
  fix s1 s2 s3 :: array2d
  assume "shape0 s2 = shape0 s1 \<and> shape1 s2 = shape1 s1 \<and>
         (\<forall>idx. \<not> in_shape s1 idx \<longrightarrow> cell s2 idx = cell s1 idx)"
    and "shape0 s3 = shape0 s2 \<and> shape1 s3 = shape1 s2 \<and>
         (\<forall>idx. \<not> in_shape s2 idx \<longrightarrow> cell s3 idx = cell s2 idx)"
  then show "shape0 s3 = shape0 s1 \<and> shape1 s3 = shape1 s1 \<and>
         (\<forall>idx. \<not> in_shape s1 idx \<longrightarrow> cell s3 idx = cell s1 idx)"
    by (simp add: in_shape_def)
qed simp

lemma heap_frame_refl: "heap_frame a c d h h"
  by (simp add: heap_frame_def)

lemma heap_frame_trans:
  "heap_frame a c d h1 h2 \<Longrightarrow> heap_frame a c d h2 h3 \<Longrightarrow> heap_frame a c d h1 h3"
  by (simp add: heap_frame_def in_shape_def)

lemma combine_kernel_thread_frame:
  assumes "combine_kernel f g tid a b c d h = Inr h'"
  shows "heap_frame a c d h h'"
proof (cases "in_shape (h a) tid")
  case False
  with assms show ?thesis by (simp add: combine_kernel_def heap_frame_refl)
next
  case True
  with assms obtain h1 where 1: "store h c tid (f (cell (h a) tid) (cell (h b) tid)) = Inr h1"
    and 2: "store h1 d tid (g (cell (h a) tid) (cell (h b) tid)) = Inr h'"
    by (auto simp: combine_kernel_def load_def getitem2_def bind_err_def
        split: if_splits sum.splits)
  have s: "heap_frame a x x k k'" if "store k x tid v = Inr k'" "in_shape (k a) tid" for k k' x v
    using that
    by (auto simp: store_def setitem2_def bind_err_def heap_frame_def in_shape_def
        split: if_splits)
  have w: "heap_frame a c d k k'" if "heap_frame a x x k k'" "x = c \<or> x = d" for k k' x
    using that by (auto simp: heap_frame_def)
  have f1: "heap_frame a c d h h1" using s [OF 1 True] by (rule w) simp
  then have "in_shape (h1 a) tid" using True by (simp add: heap_frame_def in_shape_def)
  then have "heap_frame a c d h1 h'" using s [OF 2] by (intro w [of d]) simp_all
  with f1 show ?thesis by (rule heap_frame_trans)
qed

lemma combine_kernel_frame:
  assumes "cuda_launch (\<lambda>tid. combine_kernel f g tid a b c d) tids h = Inr h'"
  shows "heap_frame a c d h h'"
  by (rule cuda_launch_preserves [OF assms, where R = "heap_frame a c d"])
    (auto intro: heap_frame_refl heap_frame_trans combine_kernel_thread_frame)

lemma combine_kernel_total:
  assumes "fits h a b" and "fits h a c" and "fits h a d"
  shows "\<exists>h'. cuda_launch (\<lambda>tid. combine_kernel f g tid a b c d) tids h = Inr h'"
  using assms
proof (induction tids arbitrary: h)
  case Nil
  show ?case by simp
next
  case (Cons tid tids)
  have "\<exists>h1. combine_kernel f g tid a b c d h = Inr h1"
    using Cons.prems
    by (auto simp: combine_kernel_def load_def store_def getitem2_def setitem2_def bind_err_def
        fits_def in_shape_def)
  then obtain h1 where 1: "combine_kernel f g tid a b c d h = Inr h1" ..
  then have "heap_frame a c d h h1" by (rule combine_kernel_thread_frame)
  then have "fits h1 a b" "fits h1 a c" "fits h1 a d"
    using Cons.prems by (simp_all add: heap_frame_def fits_def)
  from Cons.IH [OF this] 1 show ?case by simp
qed

text \<open>
  Claim C10 (frame). Whenever a launch completes, under any schedule: the copies leave
  the shape of their output as it was, \<open>cuda_copy_2d_to_2d\<close> and \<open>cuda_copy_1d_to_2d\<close> leave
  every element of the output grid outside the guarded extents as it was, and
  \<open>cuda_copy_2d_to_1d\<close> leaves every element of the flat output at an index \<open>\<ge> Nz * Nr\<close> as it
  was; the basis-change kernels change no buffer other than their two outputs, no
  array's shape, and no element at a position outside the guarded extents. The launches
  do complete whenever the buffers are declared large enough, longer or larger outputs
  included.
\<close>

theorem kernels_write_in_range_only:
  "(cuda_launch (\<lambda>tid. cuda_copy_2d_to_2d tid array_in) tids array_out = Inr out2 \<longrightarrow>
      shape0 out2 = shape0 array_out \<and> shape1 out2 = shape1 array_out \<and>
      (\<forall>idx. \<not> in_shape array_in idx \<longrightarrow> cell out2 idx = cell array_out idx)) \<and>
   (cuda_launch (\<lambda>tid. cuda_copy_2d_to_1d tid array_2d) tids array_1d = Inr out1 \<longrightarrow>
      length out1 = length array_1d \<and>
      (\<forall>i. shape0 array_2d * shape1 array_2d \<le> i \<longrightarrow> out1 ! i = array_1d ! i)) \<and>
   (cuda_launch (\<lambda>tid. cuda_copy_1d_to_2d tid flat) tids grid = Inr out3 \<longrightarrow>
      shape0 out3 = shape0 grid \<and> shape1 out3 = shape1 grid \<and>
      (\<forall>idx. \<not> in_shape grid idx \<longrightarrow> cell out3 idx = cell grid idx)) \<and>
   (cuda_launch (\<lambda>tid. cuda_rt_to_pm tid buffer_r buffer_t buffer_p buffer_m) tids h = Inr h1 \<longrightarrow>
      heap_frame buffer_r buffer_p buffer_m h h1) \<and>
   (cuda_launch (\<lambda>tid. cuda_pm_to_rt tid buffer_p buffer_m buffer_r buffer_t) tids h = Inr h2 \<longrightarrow>
      heap_frame buffer_p buffer_r buffer_t h h2) \<and>
   (shape0 array_in \<le> shape0 array_out \<and> shape1 array_in \<le> shape1 array_out \<longrightarrow>
      (\<exists>out. cuda_launch (\<lambda>tid. cuda_copy_2d_to_2d tid array_in) tids array_out = Inr out)) \<and>
   (shape0 array_2d * shape1 array_2d \<le> length array_1d \<longrightarrow>
      (\<exists>out. cuda_launch (\<lambda>tid. cuda_copy_2d_to_1d tid array_2d) tids array_1d = Inr out)) \<and>
   (shape0 grid * shape1 grid \<le> length flat \<longrightarrow>
      (\<exists>out. cuda_launch (\<lambda>tid. cuda_copy_1d_to_2d tid flat) tids grid = Inr out)) \<and>
   (fits h buffer_r buffer_t \<and> fits h buffer_r buffer_p \<and> fits h buffer_r buffer_m \<longrightarrow>
      (\<exists>h'. cuda_launch (\<lambda>tid. cuda_rt_to_pm tid buffer_r buffer_t buffer_p buffer_m) tids h =
         Inr h')) \<and>
   (fits h buffer_p buffer_m \<and> fits h buffer_p buffer_r \<and> fits h buffer_p buffer_t \<longrightarrow>
      (\<exists>h'. cuda_launch (\<lambda>tid. cuda_pm_to_rt tid buffer_p buffer_m buffer_r buffer_t) tids h =
         Inr h'))"
proof -
  have e1: "(\<lambda>tid. cuda_rt_to_pm tid buffer_r buffer_t buffer_p buffer_m) =
        (\<lambda>tid. combine_kernel (\<lambda>x y. 0.5 * (x - \<i> * y)) (\<lambda>x y. 0.5 * (x + \<i> * y)) tid
           buffer_r buffer_t buffer_p buffer_m)"
    by (intro ext) (rule cuda_rt_to_pm_combine)
  have e2: "(\<lambda>tid. cuda_pm_to_rt tid buffer_p buffer_m buffer_r buffer_t) =
        (\<lambda>tid. combine_kernel (\<lambda>x y. x + y) (\<lambda>x y. \<i> * (x - y)) tid
           buffer_p buffer_m buffer_r buffer_t)"
    by (intro ext) (rule cuda_pm_to_rt_combine)
  show ?thesis
    unfolding e1 e2
  proof (intro conjI impI)
    assume "shape0 array_in \<le> shape0 array_out \<and> shape1 array_in \<le> shape1 array_out"
    then show "\<exists>out. cuda_launch (\<lambda>tid. cuda_copy_2d_to_2d tid array_in) tids array_out = Inr out"
      using copy_2d_to_2d_launch [of array_in array_out tids] by blast
  next
    assume "shape0 array_2d * shape1 array_2d \<le> length array_1d"
    then show "\<exists>out. cuda_launch (\<lambda>tid. cuda_copy_2d_to_1d tid array_2d) tids array_1d = Inr out"
      using copy_2d_to_1d_launch [of array_2d array_1d tids] by blast
  next
    assume "shape0 grid * shape1 grid \<le> length flat"
    then show "\<exists>out. cuda_launch (\<lambda>tid. cuda_copy_1d_to_2d tid flat) tids grid = Inr out"
      using copy_1d_to_2d_launch [of grid flat tids] by blast
  next
    assume a: "cuda_launch (\<lambda>tid. cuda_copy_2d_to_2d tid array_in) tids array_out = Inr out2"
    from copy_2d_to_2d_frame [OF a]
    show "shape0 out2 = shape0 array_out" "shape1 out2 = shape1 array_out"
      "\<forall>idx. \<not> in_shape array_in idx \<longrightarrow> cell out2 idx = cell array_out idx"
      by blast+
  next
    assume a: "cuda_launch (\<lambda>tid. cuda_copy_2d_to_1d tid array_2d) tids array_1d = Inr out1"
    from copy_2d_to_1d_frame [OF a]
    show "length out1 = length array_1d"
      "\<forall>i. shape0 array_2d * shape1 array_2d \<le> i \<longrightarrow> out1 ! i = array_1d ! i"
      by blast+
  next
    assume a: "cuda_launch (\<lambda>tid. cuda_copy_1d_to_2d tid flat) tids grid = Inr out3"
    from copy_1d_to_2d_frame [OF a]
    show "shape0 out3 = shape0 grid" "shape1 out3 = shape1 grid"
      "\<forall>idx. \<not> in_shape grid idx \<longrightarrow> cell out3 idx = cell grid idx"
      by blast+
  next
    assume "fits h buffer_r buffer_t \<and> fits h buffer_r buffer_p \<and> fits h buffer_r buffer_m"
    then show "\<exists>h'. cuda_launch (\<lambda>tid. combine_kernel (\<lambda>x y. 0.5 * (x - \<i> * y))
        (\<lambda>x y. 0.5 * (x + \<i> * y)) tid buffer_r buffer_t buffer_p buffer_m) tids h = Inr h'"
      by (intro combine_kernel_total) simp_all
  next
    assume "fits h buffer_p buffer_m \<and> fits h buffer_p buffer_r \<and> fits h buffer_p buffer_t"
    then show "\<exists>h'. cuda_launch (\<lambda>tid. combine_kernel (\<lambda>x y. x + y) (\<lambda>x y. \<i> * (x - y)) tid
        buffer_p buffer_m buffer_r buffer_t) tids h = Inr h'"
      by (intro combine_kernel_total) simp_all
  qed (rule combine_kernel_frame, assumption)+
qed

theorem kernels_write_in_range_only_witness:
  "(\<exists>out. cuda_launch (\<lambda>tid. cuda_copy_2d_to_1d tid example_grid) (grid_threads (1, 1) (8, 8))
       (replicate 8 7) = Inr out \<and>
      length out = 8 \<and> out ! 6 = 7 \<and> out ! 7 = 7) \<and>
   (\<exists>h'. cuda_launch (\<lambda>tid. cuda_rt_to_pm tid 0 1 2 3) (grid_threads (1, 1) (8, 8))
       example_heap = Inr h' \<and>
      h' 0 = example_heap 0 \<and> h' 4 = example_heap 4 \<and>
      cell (h' 2) (2, 2) = cell (example_heap 2) (2, 2))"
proof -
  note t = kernels_write_in_range_only [where array_2d = example_grid
      and tids = "grid_threads (1, 1) (8, 8)" and array_1d = "replicate 8 7"
      and h = example_heap and buffer_r = 0 and buffer_t = 1 and buffer_p = 2 and buffer_m = 3]
  note ex_1d = t [THEN conjunct2, THEN conjunct2, THEN conjunct2, THEN conjunct2,
      THEN conjunct2, THEN conjunct2, THEN conjunct1]
  note ex_rt = t [THEN conjunct2, THEN conjunct2, THEN conjunct2, THEN conjunct2,
      THEN conjunct2, THEN conjunct2, THEN conjunct2, THEN conjunct2, THEN conjunct1]
  have "shape0 example_grid * shape1 example_grid \<le> length (replicate 8 (7::complex))"
    by (simp add: example_grid_def)
  from ex_1d [rule_format, OF this] obtain out where
    1: "cuda_launch (\<lambda>tid. cuda_copy_2d_to_1d tid example_grid) (grid_threads (1, 1) (8, 8))
       (replicate 8 7) = Inr out" ..
  note t1 = kernels_write_in_range_only [where array_2d = example_grid
      and tids = "grid_threads (1, 1) (8, 8)" and array_1d = "replicate 8 7" and ?out1.0 = out]
  from t1 [THEN conjunct2, THEN conjunct1, rule_format, OF 1]
  have 2: "length out = length (replicate 8 (7::complex))"
    and 3: "\<forall>i. shape0 example_grid * shape1 example_grid \<le> i \<longrightarrow> out ! i = replicate 8 7 ! i"
    by (rule conjunct1, rule conjunct2)
  have a: "length out = 8 \<and> out ! 6 = 7 \<and> out ! 7 = 7"
    using 2 3 [rule_format, of 6] 3 [rule_format, of 7] by (simp add: example_grid_def)
  have "fits example_heap 0 1 \<and> fits example_heap 0 2 \<and> fits example_heap 0 3"
    by (simp add: example_heap_fits)
  from ex_rt [rule_format, OF this] obtain h' where
    4: "cuda_launch (\<lambda>tid. cuda_rt_to_pm tid 0 1 2 3) (grid_threads (1, 1) (8, 8))
       example_heap = Inr h'" ..
  note t2 = kernels_write_in_range_only [where tids = "grid_threads (1, 1) (8, 8)"
      and h = example_heap and buffer_r = 0 and buffer_t = 1 and buffer_p = 2 and buffer_m = 3
      and ?h1.0 = h']
  from t2 [THEN conjunct2, THEN conjunct2, THEN conjunct2, THEN conjunct1, rule_format, OF 4]
  have 5: "heap_frame 0 2 3 example_heap h'" .
  have b: "h' 0 = example_heap 0 \<and> h' 4 = example_heap 4 \<and>
      cell (h' 2) (2, 2) = cell (example_heap 2) (2, 2)"
    using 5 by (simp add: heap_frame_def in_shape_def example_heap_shape)
  from 1 a 4 b show ?thesis by blast
qed

end
